theory Spec2Isabelle
  imports Main
begin

text \<open>
  A model of \<^verbatim>\<open>neural/models/classification/shufflenetv2.py\<close>: the construction of the
  ShuffleNetV2 networks from convolution blocks, residual units and stages, and their
  forward pass on tensors, with the tensor library's layers taken as given.
\<close>

section \<open>Errors and tensors\<close>

text \<open>
  The exceptions that the construction code and a forward pass can raise: a list index
  out of range, a failed tuple unpacking, a division by zero, and a shape error reported
  by the tensor library.
\<close>

datatype error = IndexError | ValueError | ZeroDivisionError | RuntimeError

text \<open>
  A tensor is its shape together with its cells in row-major (contiguous) order. The
  cells are floating-point numbers in the program; the network code never inspects them,
  so the cell type is a parameter.
\<close>

record 'a tensor =
  shape :: "nat list"
  data :: "'a list"

definition numel :: "nat list \<Rightarrow> nat" where
  "numel s = prod_list s"

definition well_formed :: "'a tensor \<Rightarrow> bool" where
  "well_formed x \<longleftrightarrow> length (data x) = numel (shape x)"

text \<open>
  The cell of batch element \<open>b\<close>, channel \<open>c\<close> and position \<open>r\<close> within the (flattened)
  trailing axes, for a tensor whose first two axes are batch and channel.
\<close>

definition cell :: "'a tensor \<Rightarrow> nat \<Rightarrow> nat \<Rightarrow> nat \<Rightarrow> 'a" where
  "cell x b c r = data x ! ((b * (shape x ! 1) + c) * numel (drop 2 (shape x)) + r)"

section \<open>Tensor operations used by the blocks\<close>

text \<open>
  \<open>slice_channels\<close> is the view of channels \<open>start ..< start + len\<close> of a tensor of shape
  \<open>B # C # rest\<close>, read in row-major order.
\<close>

definition slice_channels ::
  "nat \<Rightarrow> nat \<Rightarrow> nat list \<Rightarrow> 'a list \<Rightarrow> nat \<Rightarrow> nat \<Rightarrow> 'a tensor" where
  "slice_channels B C rest d start len =
     (let inner = numel rest in
      \<lparr>shape = B # len # rest,
       data = map (\<lambda>k. d ! (((k div inner) div len * C + start + (k div inner) mod len) * inner
                              + k mod inner))
                  [0..<B * len * inner]\<rparr>)"

text \<open>
  \<open>x.chunk(chunks, dim=1)\<close>: pieces of \<open>ceil(C / chunks)\<close> channels each, the last one
  possibly smaller, so that fewer than \<open>chunks\<close> pieces may come back; a zero-sized
  channel axis gives \<open>chunks\<close> empty pieces.
\<close>

definition chunk :: "'a tensor \<Rightarrow> nat \<Rightarrow> error + 'a tensor list" where
  "chunk x chunks =
     (case shape x of
        B # C # rest \<Rightarrow>
          if chunks = 0 then Inl RuntimeError
          else
            (let size = (C + chunks - 1) div chunks in
             if size = 0 then Inr (replicate chunks (slice_channels B C rest (data x) 0 0))
             else Inr (map (\<lambda>i. slice_channels B C rest (data x) (i * size) (min size (C - i * size)))
                           [0..<(C + size - 1) div size]))
      | _ \<Rightarrow> Inl IndexError)"

text \<open>\<open>torch.cat([l, r], dim=1)\<close>: all axes but the channel axis must agree.\<close>

definition cat :: "'a tensor \<Rightarrow> 'a tensor \<Rightarrow> error + 'a tensor" where
  "cat l r =
     (case (shape l, shape r) of
        (B # C1 # rest, B' # C2 # rest') \<Rightarrow>
          if B = B' \<and> rest = rest' then
            (let inner = numel rest; C = C1 + C2 in
             Inr \<lparr>shape = B # C # rest,
                  data = map (\<lambda>k. let b = (k div inner) div C; c = (k div inner) mod C; i = k mod inner
                                   in if c < C1 then data l ! ((b * C1 + c) * inner + i)
                                      else data r ! ((b * C2 + (c - C1)) * inner + i))
                             [0..<B * C * inner]\<rparr>)
          else Inl RuntimeError
      | _ \<Rightarrow> Inl RuntimeError)"

text \<open>\<open>x.reshape(s)\<close>: the same cells in the same order under a new shape of equal size.\<close>

definition reshape :: "'a tensor \<Rightarrow> nat list \<Rightarrow> error + 'a tensor" where
  "reshape x s = (if numel s = numel (shape x) then Inr (x\<lparr>shape := s\<rparr>) else Inl RuntimeError)"

text \<open>
  \<open>x.transpose(1, 2)\<close>: axes 1 and 2 are exchanged. The result is given in its own
  row-major order, which is the order the following \<open>reshape\<close> copies it into.
\<close>

definition transpose12 :: "'a tensor \<Rightarrow> error + 'a tensor" where
  "transpose12 x =
     (case shape x of
        A # P # Q # rest \<Rightarrow>
          (let inner = numel rest in
           Inr \<lparr>shape = A # Q # P # rest,
                data = map (\<lambda>k. let i = k mod inner; t = k div inner;
                                     p = t mod P; q = (t div P) mod Q; a = (t div P) div Q
                                 in data x ! (((a * P + p) * Q + q) * inner + i))
                           [0..<A * Q * P * inner]\<rparr>)
      | _ \<Rightarrow> Inl IndexError)"

text \<open>
  \<open>channel_shuffle(x, groups)\<close>. Unpacking \<open>x.shape\<close> into four names fails unless the
  tensor has four axes; \<open>channels // groups\<close> fails for \<open>groups = 0\<close>; a negative entry in
  the target shape is rejected by \<open>reshape\<close>.
\<close>

definition channel_shuffle :: "'a tensor \<Rightarrow> int \<Rightarrow> error + 'a tensor" where
  "channel_shuffle x groups =
     (case shape x of
        [batch_size, channels, height, width] \<Rightarrow>
          if groups = 0 then Inl ZeroDivisionError
          else if groups < 0 then Inl RuntimeError
          else
            (case reshape x [batch_size, nat groups, channels div nat groups, height, width] of
               Inl e \<Rightarrow> Inl e
             | Inr y \<Rightarrow>
                 (case transpose12 y of
                    Inl e \<Rightarrow> Inl e
                  | Inr z \<Rightarrow> reshape z [batch_size, channels, height, width]))
      | _ \<Rightarrow> Inl ValueError)"

section \<open>Layers of the tensor library\<close>

text \<open>
  The library's layers are recorded with the arguments the code passes to their
  constructors: \<open>Conv2d in_channels out_channels kernel_size padding stride groups bias\<close>,
  \<open>BatchNorm2d num_features\<close>, \<open>MaxPool2d kernel_size stride padding\<close>,
  \<open>AdaptiveAvgPool2d output_size\<close>, \<open>Linear in_features out_features bias\<close>.
  Constructing a layer records its arguments; what the library makes of unusable arguments
  is part of the shape rules below, not of the construction code.
\<close>

datatype layer =
    Conv2d int int int int int int bool
  | BatchNorm2d int
  | ReLU
  | MaxPool2d int int int
  | AdaptiveAvgPool2d int
  | Flatten
  | Linear int int bool

text \<open>
  A module is a library layer, a sequential container (positional, or with named
  children given in order), or the repository's own block, which holds an optional left
  branch and a right branch.
\<close>

datatype module =
    Prim layer
  | Sequential "module list"
  | SequentialDict "(string \<times> module) list"
  | Block "module option" module

text \<open>Output extent of a sliding window along one axis (floor division, as the library computes it).\<close>

definition window_out :: "nat \<Rightarrow> int \<Rightarrow> int \<Rightarrow> int \<Rightarrow> nat" where
  "window_out h k p s = nat ((int h + 2 * p - k) div s + 1)"

text \<open>
  The shape rules of the library layers on batched inputs, with the failures the library
  reports: a channel count that does not match the layer, a window larger than the padded
  input, and, for normalization in training mode, a single value per channel. Layers with
  a non-positive width, kernel, stride or group count, or with widths that the group count
  does not divide, are rejected.
\<close>

fun layer_shape :: "bool \<Rightarrow> layer \<Rightarrow> nat list \<Rightarrow> error + nat list" where
  "layer_shape training (Conv2d cin cout k p s g bias) sh =
     (case sh of
        [B, C, H, W] \<Rightarrow>
          if int C \<noteq> cin \<or> cin < 1 \<or> cout < 1 \<or> g < 1 \<or> cin mod g \<noteq> 0 \<or> cout mod g \<noteq> 0
             \<or> k < 1 \<or> s < 1 \<or> p < 0 \<or> int H + 2 * p < k \<or> int W + 2 * p < k
          then Inl RuntimeError
          else Inr [B, nat cout, window_out H k p s, window_out W k p s]
      | _ \<Rightarrow> Inl RuntimeError)"
| "layer_shape training (BatchNorm2d n) sh =
     (case sh of
        [B, C, H, W] \<Rightarrow>
          if int C \<noteq> n then Inl RuntimeError
          else if training \<and> B * H * W = 1 then Inl ValueError
          else Inr sh
      | _ \<Rightarrow> Inl ValueError)"
| "layer_shape training ReLU sh = Inr sh"
| "layer_shape training (MaxPool2d k s p) sh =
     (case sh of
        [B, C, H, W] \<Rightarrow>
          if k < 1 \<or> s < 1 \<or> p < 0 \<or> k < 2 * p \<or> int H + 2 * p < k \<or> int W + 2 * p < k
          then Inl RuntimeError
          else Inr [B, C, window_out H k p s, window_out W k p s]
      | _ \<Rightarrow> Inl RuntimeError)"
| "layer_shape training (AdaptiveAvgPool2d n) sh =
     (case sh of
        [B, C, H, W] \<Rightarrow>
          if C = 0 \<or> H = 0 \<or> W = 0 \<or> n < 0 then Inl RuntimeError
          else Inr [B, C, nat n, nat n]
      | _ \<Rightarrow> Inl RuntimeError)"
| "layer_shape training Flatten sh =
     (case sh of
        B # d # rest \<Rightarrow> Inr [B, numel (d # rest)]
      | _ \<Rightarrow> Inl IndexError)"
| "layer_shape training (Linear fin fout bias) sh =
     (if sh = [] \<or> fout < 0 then Inl RuntimeError
      else if int (last sh) \<noteq> fin then Inl RuntimeError
      else Inr (butlast sh @ [nat fout]))"

text \<open>
  The numbers a layer computes are outside the model: \<open>num l x k\<close> stands for cell \<open>k\<close> of
  the output of layer \<open>l\<close> on input \<open>x\<close>, and every statement below holds for all \<open>num\<close>.
\<close>

definition apply_layer ::
  "(layer \<Rightarrow> 'a tensor \<Rightarrow> nat \<Rightarrow> 'a) \<Rightarrow> bool \<Rightarrow> layer \<Rightarrow> 'a tensor \<Rightarrow> error + 'a tensor" where
  "apply_layer num training l x =
     (case layer_shape training l (shape x) of
        Inl e \<Rightarrow> Inl e
      | Inr s \<Rightarrow> Inr \<lparr>shape = s, data = map (num l x) [0..<numel s]\<rparr>)"

section \<open>The forward pass\<close>

fun forward ::
    "(layer \<Rightarrow> 'a tensor \<Rightarrow> nat \<Rightarrow> 'a) \<Rightarrow> bool \<Rightarrow> module \<Rightarrow> 'a tensor \<Rightarrow> error + 'a tensor"
  and forward_list ::
    "(layer \<Rightarrow> 'a tensor \<Rightarrow> nat \<Rightarrow> 'a) \<Rightarrow> bool \<Rightarrow> module list \<Rightarrow> 'a tensor \<Rightarrow> error + 'a tensor"
  and forward_dict ::
    "(layer \<Rightarrow> 'a tensor \<Rightarrow> nat \<Rightarrow> 'a) \<Rightarrow> bool \<Rightarrow> (string \<times> module) list \<Rightarrow> 'a tensor
      \<Rightarrow> error + 'a tensor"
where
  "forward num training (Prim l) x = apply_layer num training l x"
| "forward num training (Sequential ms) x = forward_list num training ms x"
| "forward num training (SequentialDict kms) x = forward_dict num training kms x"
| "forward num training (Block None right) input =
     (case chunk input 2 of
        Inl e \<Rightarrow> Inl e
      | Inr [left, right_in] \<Rightarrow>
          (case forward num training right right_in of
             Inl e \<Rightarrow> Inl e
           | Inr right_out \<Rightarrow>
               (case cat left right_out of
                  Inl e \<Rightarrow> Inl e
                | Inr x \<Rightarrow> channel_shuffle x 2))
      | Inr _ \<Rightarrow> Inl ValueError)"
| "forward num training (Block (Some left) right) input =
     (case forward num training left input of
        Inl e \<Rightarrow> Inl e
      | Inr left_out \<Rightarrow>
          (case forward num training right input of
             Inl e \<Rightarrow> Inl e
           | Inr right_out \<Rightarrow>
               (case cat left_out right_out of
                  Inl e \<Rightarrow> Inl e
                | Inr x \<Rightarrow> channel_shuffle x 2)))"
| "forward_list num training [] x = Inr x"
| "forward_list num training (m # ms) x =
     (case forward num training m x of
        Inl e \<Rightarrow> Inl e
      | Inr y \<Rightarrow> forward_list num training ms y)"
| "forward_dict num training [] x = Inr x"
| "forward_dict num training ((name, m) # kms) x =
     (case forward num training m x of
        Inl e \<Rightarrow> Inl e
      | Inr y \<Rightarrow> forward_dict num training kms y)"

section \<open>Construction\<close>

definition ConvBlock :: "int \<Rightarrow> int \<Rightarrow> int \<Rightarrow> int \<Rightarrow> int \<Rightarrow> bool \<Rightarrow> module" where
  "ConvBlock in_channels out_channels kernel_size padding stride use_relu =
     Sequential
       ([Prim (Conv2d in_channels out_channels kernel_size padding stride 1 False),
         Prim (BatchNorm2d out_channels)]
        @ (if use_relu then [Prim ReLU] else []))"

definition DSConvBlock :: "int \<Rightarrow> int \<Rightarrow> int \<Rightarrow> int \<Rightarrow> int \<Rightarrow> bool \<Rightarrow> module" where
  "DSConvBlock in_channels out_channels kernel_size padding stride use_relu =
     Sequential
       ([Prim (Conv2d in_channels in_channels kernel_size padding stride in_channels False),
         Prim (BatchNorm2d in_channels),
         Prim (Conv2d in_channels out_channels 1 0 1 1 False),
         Prim (BatchNorm2d out_channels)]
        @ (if use_relu then [Prim ReLU] else []))"

definition InvertedResidualBlock :: "int \<Rightarrow> int \<Rightarrow> int \<Rightarrow> module" where
  "InvertedResidualBlock in_channels out_channels stride =
     (let branch_channels = out_channels div 2 in
      Block
        (if stride > 1 then Some (DSConvBlock in_channels branch_channels 3 1 stride True)
         else None)
        (Sequential
           [ConvBlock (if stride > 1 then in_channels else branch_channels) branch_channels 1 0 1 True,
            DSConvBlock branch_channels branch_channels 3 1 stride True]))"

text \<open>The loop of \<open>make_layer\<close>: one more width-preserving block per iteration of \<open>range(1, depth)\<close>.\<close>

fun make_layer_loop :: "nat \<Rightarrow> int \<Rightarrow> module list \<Rightarrow> module list" where
  "make_layer_loop 0 out_channels layers = layers"
| "make_layer_loop (Suc n) out_channels layers =
     make_layer_loop n out_channels (layers @ [InvertedResidualBlock out_channels out_channels 1])"

definition make_layer :: "int \<Rightarrow> int \<Rightarrow> int \<Rightarrow> int \<Rightarrow> module" where
  "make_layer in_channels out_channels depth stride =
     Sequential
       (make_layer_loop (nat (depth - 1)) out_channels
          [InvertedResidualBlock in_channels out_channels stride])"

text \<open>
  \<open>ShuffleNetV2.__init__\<close> reads \<open>block_channels[0..4]\<close> and \<open>block_depth[0..2]\<close>; a
  shorter list raises \<open>IndexError\<close>. Nothing else is checked.
\<close>

definition ShuffleNetV2 :: "int \<Rightarrow> int \<Rightarrow> int list \<Rightarrow> int list \<Rightarrow> error + module" where
  "ShuffleNetV2 in_channels num_classes block_depth block_channels =
     (if length block_channels < 5 \<or> length block_depth < 3 then Inl IndexError
      else
        (let features = SequentialDict
               [(''head'', Sequential
                   [ConvBlock in_channels (block_channels ! 0) 3 1 2 True,
                    Prim (MaxPool2d 3 2 1)]),
                (''layer1'', make_layer (block_channels ! 0) (block_channels ! 1) (block_depth ! 0) 2),
                (''layer2'', make_layer (block_channels ! 1) (block_channels ! 2) (block_depth ! 1) 2),
                (''layer3'', make_layer (block_channels ! 2) (block_channels ! 3) (block_depth ! 2) 2),
                (''tail'', ConvBlock (block_channels ! 3) (block_channels ! 4) 1 0 1 True)];
             classifier = Sequential
               [Prim (AdaptiveAvgPool2d 1),
                Prim Flatten,
                Prim (Linear (block_channels ! 4) num_classes True)]
         in Inr (SequentialDict [(''features'', features), (''classifier'', classifier)])))"

definition shufflenetv2_x0_5 :: "int \<Rightarrow> int \<Rightarrow> error + module" where
  "shufflenetv2_x0_5 in_channels num_classes =
     ShuffleNetV2 in_channels num_classes [4, 8, 4] [24, 48, 96, 192, 1024]"

definition shufflenetv2_x1_0 :: "int \<Rightarrow> int \<Rightarrow> error + module" where
  "shufflenetv2_x1_0 in_channels num_classes =
     ShuffleNetV2 in_channels num_classes [4, 8, 4] [24, 116, 232, 464, 1024]"

definition shufflenetv2_x1_5 :: "int \<Rightarrow> int \<Rightarrow> error + module" where
  "shufflenetv2_x1_5 in_channels num_classes =
     ShuffleNetV2 in_channels num_classes [4, 8, 4] [24, 176, 352, 704, 1024]"

definition shufflenetv2_x2_0 :: "int \<Rightarrow> int \<Rightarrow> error + module" where
  "shufflenetv2_x2_0 in_channels num_classes =
     ShuffleNetV2 in_channels num_classes [4, 8, 4] [24, 244, 488, 976, 2048]"

section \<open>Index arithmetic of the shuffle\<close>

text \<open>
  Position \<open>k\<close> of the result of \<open>reshape (B, G, n, H, W)\<close>, \<open>transpose(1, 2)\<close>,
  \<open>reshape (B, G * n, H, W)\<close> reads position \<open>shuffle_src G n (H * W) k\<close> of the input.
\<close>

definition shuffle_src :: "nat \<Rightarrow> nat \<Rightarrow> nat \<Rightarrow> nat \<Rightarrow> nat" where
  "shuffle_src G n inner k =
     (((k div inner) div G div n * G + (k div inner) mod G) * n + (k div inner) div G mod n) * inner
       + k mod inner"

section \<open>Successful results\<close>

text \<open>\<open>yields r s\<close>: the computation \<open>r\<close> returned a well-formed tensor of shape \<open>s\<close>.\<close>

definition yields :: "error + 'a tensor \<Rightarrow> nat list \<Rightarrow> bool" where
  "yields r s = (case r of Inl e \<Rightarrow> False | Inr y \<Rightarrow> well_formed y \<and> shape y = s)"

section \<open>Properties of the channel shuffle\<close>

lemma digit_div: "i < m \<Longrightarrow> (t * m + i) div m = (t::nat)"
  by simp

lemma digit_mod: "i < m \<Longrightarrow> (t * m + i) mod m = (i::nat)"
  by simp

lemma digit_less: "a < A \<Longrightarrow> p < P \<Longrightarrow> a * P + p < A * (P::nat)"
proof -
  assume a: "a < A" and p: "p < P"
  have "a * P + p < a * P + P" using p by simp
  also have "\<dots> = (Suc a) * P" by simp
  also have "\<dots> \<le> A * P" using a by (intro mult_le_mono1) simp
  finally show ?thesis .
qed

lemma numel4: "numel [a, b, c, d] = a * b * c * d"
  by (simp add: numel_def mult.assoc)

lemma numel5: "numel [a, b, c, d, e] = a * b * c * d * e"
  by (simp add: numel_def mult.assoc)

lemma numel2: "numel [c, d] = c * d"
  by (simp add: numel_def)

lemma channel_shuffle_data:
  assumes sh: "shape x = [B, G * n, H, W]" and G: "0 < G"
  shows "channel_shuffle x (int G) =
           Inr \<lparr>shape = [B, G * n, H, W],
                data = map (\<lambda>k. data x ! shuffle_src G n (H * W) k) [0..<B * (G * n) * (H * W)]\<rparr>"
proof -
  have d: "G * n div G = n" using G by simp
  have e: "B * n * G * (H * W) = B * (G * n) * (H * W)" by (simp add: mult.commute mult.left_commute)
  show ?thesis
    using G
    by (simp add: channel_shuffle_def sh reshape_def transpose12_def numel4 numel5 numel2 d
        shuffle_src_def Let_def ac_simps)
qed

lemma shuffle_src_less:
  assumes "k < B * (G * n) * inner"
  shows "shuffle_src G n inner k < B * (G * n) * inner"
proof -
  have pos: "0 < inner" "0 < G" "0 < n" using assms by (auto intro: Nat.gr0I)
  let ?t = "k div inner"
  have t: "?t < B * (G * n)" using assms pos by (simp add: less_mult_imp_div_less)
  have t2: "?t div G < B * n"
    using t pos by (simp add: less_mult_imp_div_less mult.commute mult.left_commute)
  have a: "?t div G div n < B" using t2 pos by (simp add: less_mult_imp_div_less)
  have p: "?t mod G < G" using pos by simp
  have q: "?t div G mod n < n" using pos by simp
  have i: "k mod inner < inner" using pos by simp
  have "((?t div G div n * G + ?t mod G) * n + ?t div G mod n) * inner + k mod inner
               < B * G * n * inner"
    by (rule digit_less [OF digit_less [OF digit_less [OF a p] q] i])
  then show ?thesis by (simp add: shuffle_src_def mult.assoc)
qed

lemma shuffle_src_inverse:
  assumes "0 < inner" "0 < G" "0 < n"
  shows "shuffle_src G n inner (shuffle_src n G inner k) = k"
proof -
  let ?t = "k div inner"
  let ?m = "(?t div n div G * n + ?t mod n) * G + ?t div n mod G"
  have s: "shuffle_src n G inner k = ?m * inner + k mod inner"
    by (simp add: shuffle_src_def)
  have i: "k mod inner < inner" using assms by simp
  have q: "?t div n mod G < G" using assms by simp
  have p: "?t mod n < n" using assms by simp
  have m1: "(?m * inner + k mod inner) div inner = ?m" using i by simp
  have m2: "(?m * inner + k mod inner) mod inner = k mod inner" using i by simp
  have m3: "?m mod G = ?t div n mod G" using q by simp
  have m4: "?m div G = ?t div n div G * n + ?t mod n" using q by simp
  have m5: "(?t div n div G * n + ?t mod n) mod n = ?t mod n" using p by simp
  have m6: "(?t div n div G * n + ?t mod n) div n = ?t div n div G" using p by simp
  have "shuffle_src G n inner (?m * inner + k mod inner)
          = ((?t div n div G * G + ?t div n mod G) * n + ?t mod n) * inner + k mod inner"
    unfolding shuffle_src_def m1 m2 m3 m4 m5 m6 ..
  also have "\<dots> = (?t div n * n + ?t mod n) * inner + k mod inner" by simp
  also have "\<dots> = k" by simp
  finally show ?thesis using s by simp
qed

lemma channel_shuffle_inverse:
  assumes w: "well_formed x" and sh: "shape x = [B, G * n, H, W]" and G: "0 < G" and n: "0 < n"
  shows "(case channel_shuffle x (int G) of Inl e \<Rightarrow> Inl e | Inr y \<Rightarrow> channel_shuffle y (int n)) = Inr x"
proof -
  let ?N = "B * (G * n) * (H * W)"
  let ?y = "\<lparr>shape = [B, G * n, H, W],
              data = map (\<lambda>k. data x ! shuffle_src G n (H * W) k) [0..<?N]\<rparr>"
  have len: "length (data x) = ?N" using w by (simp add: well_formed_def sh numel4 mult.assoc)
  have 1: "channel_shuffle x (int G) = Inr ?y" by (rule channel_shuffle_data [OF sh G])
  have shy: "shape ?y = [B, n * G, H, W]" by (simp add: mult.commute)
  have N': "B * (n * G) * (H * W) = ?N" by (simp add: mult.commute)
  have 2: "channel_shuffle ?y (int n) =
             Inr \<lparr>shape = [B, n * G, H, W],
                  data = map (\<lambda>k. data ?y ! shuffle_src n G (H * W) k) [0..<?N]\<rparr>"
    using channel_shuffle_data [OF shy n] unfolding N' .
  have "map (\<lambda>k. data ?y ! shuffle_src n G (H * W) k) [0..<?N] = map (\<lambda>k. data x ! k) [0..<?N]"
  proof (rule map_cong [OF refl])
    fix k assume "k \<in> set [0..<?N]"
    then have k: "k < ?N" by simp
    then have pos: "0 < H * W" by (auto intro: Nat.gr0I)
    have "shuffle_src n G (H * W) k < B * (n * G) * (H * W)"
      by (rule shuffle_src_less) (simp only: N' k)
    then have lt: "shuffle_src n G (H * W) k < ?N" using N' by simp
    show "data ?y ! shuffle_src n G (H * W) k = data x ! k"
      using lt shuffle_src_inverse [OF pos G n, of k] by simp
  qed
  also have "\<dots> = data x" using len map_nth [of "data x"] by simp
  finally have "map (\<lambda>k. data ?y ! shuffle_src n G (H * W) k) [0..<?N] = data x" .
  then show ?thesis using 1 2 sh by (simp add: mult.commute)
qed

lemma shuffle_src_digits:
  assumes "i < G" "j < n" "r < inner"
  shows "shuffle_src G n inner (((b * n + j) * G + i) * inner + r) = ((b * G + i) * n + j) * inner + r"
  using assms by (simp add: shuffle_src_def)

lemma cell4: "shape x = [B, C, H, W] \<Longrightarrow> cell x b c r = data x ! ((b * C + c) * (H * W) + r)"
  by (simp add: cell_def numel2)

lemma channel_shuffle_cells:
  fixes x :: "'a tensor"
  assumes sh: "shape x = [B, G * n, H, W]" and G: "0 < G"
  shows "\<exists>y. channel_shuffle x (int G) = Inr y \<and> well_formed y \<and> shape y = [B, G * n, H, W]
            \<and> (\<forall>b<B. \<forall>i<G. \<forall>j<n. \<forall>r<H * W. cell y b (j * G + i) r = cell x b (i * n + j) r)"
proof -
  let ?N = "B * (G * n) * (H * W)"
  let ?y = "\<lparr>shape = [B, G * n, H, W],
              data = map (\<lambda>k. data x ! shuffle_src G n (H * W) k) [0..<?N]\<rparr>"
  have 1: "channel_shuffle x (int G) = Inr ?y" by (rule channel_shuffle_data [OF sh G])
  have 2: "well_formed ?y" by (simp add: well_formed_def numel4 mult.assoc)
  have 3: "cell ?y b (j * G + i) r = cell x b (i * n + j) r"
    if b: "b < B" and i: "i < G" and j: "j < n" and r: "r < H * W" for b i j r
  proof -
    have e: "(b * (G * n) + (j * G + i)) * (H * W) + r = ((b * n + j) * G + i) * (H * W) + r"
      by (simp add: algebra_simps)
    have "(b * n + j) * G + i < B * n * G" by (rule digit_less [OF digit_less [OF b j] i])
    then have "((b * n + j) * G + i) * (H * W) + r < B * n * G * (H * W)"
      by (rule digit_less [OF _ r])
    then have lt: "((b * n + j) * G + i) * (H * W) + r < ?N" by (simp add: ac_simps)
    have "cell ?y b (j * G + i) r = data ?y ! (((b * n + j) * G + i) * (H * W) + r)"
      using cell4 [of ?y B "G * n" H W b "j * G + i" r] e by simp
    also have "\<dots> = data x ! shuffle_src G n (H * W) (((b * n + j) * G + i) * (H * W) + r)"
      using lt by simp
    also have "\<dots> = data x ! (((b * G + i) * n + j) * (H * W) + r)"
      by (simp only: shuffle_src_digits [OF i j r])
    also have "\<dots> = cell x b (i * n + j) r"
      using cell4 [OF sh, of b "i * n + j" r] by (simp add: algebra_simps)
    finally show ?thesis .
  qed
  show ?thesis using 1 2 3 by (intro exI [of _ ?y]) simp
qed

section \<open>Forward pass of the convolution blocks\<close>

lemma yieldsI: "r = Inr y \<Longrightarrow> well_formed y \<Longrightarrow> shape y = s \<Longrightarrow> yields r s"
  by (simp add: yields_def)

lemma yieldsE:
  assumes "yields r s"
  obtains y where "r = Inr y" "well_formed y" "shape y = s"
  using assms by (cases r) (auto simp: yields_def)

lemma apply_layer_yields:
  "layer_shape training l (shape x) = Inr s \<Longrightarrow> yields (apply_layer num training l x) s"
  by (simp add: apply_layer_def yields_def well_formed_def)

lemma forward_list_Cons_yields:
  assumes "yields (forward num training m x) s"
    and "\<And>y. well_formed y \<Longrightarrow> shape y = s \<Longrightarrow> yields (forward_list num training ms y) s'"
  shows "yields (forward_list num training (m # ms) x) s'"
proof -
  from assms(1) obtain y where y: "forward num training m x = Inr y" "well_formed y" "shape y = s"
    by (rule yieldsE)
  show ?thesis using y assms(2) [OF y(2) y(3)] by simp
qed

lemma forward_list_Nil_yields: "well_formed x \<Longrightarrow> shape x = s \<Longrightarrow> yields (forward_list num training [] x) s"
  by (simp add: yields_def)

lemma window_out_1: "window_out h 1 0 1 = h"
  by (simp add: window_out_def)

lemma window_out_3: "0 < s \<Longrightarrow> 1 \<le> h \<Longrightarrow> window_out h 3 1 (int s) = (h - 1) div s + 1"
proof -
  assume "0 < s" and "1 \<le> h"
  then obtain m where m: "h = Suc m" by (cases h) auto
  have "(int m) div int s + 1 = int (m div s + 1)" by (simp add: zdiv_int)
  then show ?thesis using m by (simp add: window_out_def)
qed

lemma window_out_pos:
  assumes "1 \<le> s" "k \<le> int h + 2 * p"
  shows "1 \<le> window_out h k p s"
proof -
  have "0 \<le> (int h + 2 * p - k) div s"
    using assms by (simp add: pos_imp_zdiv_nonneg_iff)
  then show ?thesis by (simp add: window_out_def)
qed

lemma relu_tail_yields:
  assumes "well_formed y" "shape y = s"
  shows "yields (forward_list num training (if use_relu then [Prim ReLU] else []) y) s"
proof (cases use_relu)
  case True
  have "yields (forward num training (Prim ReLU) y) s"
    using assms by (simp add: apply_layer_def yields_def well_formed_def)
  then have "yields (forward_list num training [Prim ReLU] y) s"
    by (rule forward_list_Cons_yields) (rule forward_list_Nil_yields)
  then show ?thesis using True by simp
next
  case False
  then show ?thesis using assms by (simp add: yields_def)
qed

lemma prim_yields:
  "layer_shape training l (shape x) = Inr s \<Longrightarrow> yields (forward num training (Prim l) x) s"
  by (simp add: apply_layer_yields)

lemma ConvBlock_yields:
  assumes sh: "shape x = [B, C, H, W]"
    and ok: "1 \<le> C" "1 \<le> cout" "1 \<le> k" "1 \<le> s" "0 \<le> p" "k \<le> int H + 2 * p" "k \<le> int W + 2 * p"
    and bn: "training \<longrightarrow> B * window_out H k p s * window_out W k p s \<noteq> 1"
  shows "yields (forward num training (ConvBlock (int C) cout k p s use_relu) x)
           [B, nat cout, window_out H k p s, window_out W k p s]"
proof -
  let ?s = "[B, nat cout, window_out H k p s, window_out W k p s]"
  have conv: "layer_shape training (Conv2d (int C) cout k p s 1 False) [B, C, H, W] = Inr ?s"
    using ok by simp
  have norm: "layer_shape training (BatchNorm2d cout) ?s = Inr ?s"
    using ok bn by simp
  have relu: "layer_shape training ReLU ?s = Inr ?s" by simp
  have tail: "yields (forward_list num training (if use_relu then [Prim ReLU] else []) y) ?s"
    if "well_formed y" "shape y = ?s" for y
    using that by (rule relu_tail_yields)
  have "yields (forward_list num training
          ([Prim (Conv2d (int C) cout k p s 1 False), Prim (BatchNorm2d cout)]
            @ (if use_relu then [Prim ReLU] else [])) x) ?s"
    apply (simp only: append_Cons append_Nil)
    apply (rule forward_list_Cons_yields [where s = ?s])
     apply (rule prim_yields, simp only: sh conv)
    apply (rule forward_list_Cons_yields [where s = ?s])
     apply (rule prim_yields, simp only: norm)
    apply (rule tail, assumption+)
    done
  then show ?thesis by (simp add: ConvBlock_def)
qed

lemma DSConvBlock_yields:
  assumes sh: "shape x = [B, C, H, W]"
    and ok: "1 \<le> C" "1 \<le> cout" "1 \<le> k" "1 \<le> s" "0 \<le> p" "k \<le> int H + 2 * p" "k \<le> int W + 2 * p"
    and bn: "training \<longrightarrow> B * window_out H k p s * window_out W k p s \<noteq> 1"
  shows "yields (forward num training (DSConvBlock (int C) cout k p s use_relu) x)
           [B, nat cout, window_out H k p s, window_out W k p s]"
proof -
  let ?h = "window_out H k p s" and ?w = "window_out W k p s"
  let ?m = "[B, C, ?h, ?w]"
  let ?s = "[B, nat cout, ?h, ?w]"
  have pos: "1 \<le> ?h" "1 \<le> ?w"
    by (rule window_out_pos [OF ok(4) ok(6)], rule window_out_pos [OF ok(4) ok(7)])
  have dw: "layer_shape training (Conv2d (int C) (int C) k p s (int C) False) [B, C, H, W] = Inr ?m"
    using ok by simp
  have n1: "layer_shape training (BatchNorm2d (int C)) ?m = Inr ?m"
    using bn by simp
  have pw: "layer_shape training (Conv2d (int C) cout 1 0 1 1 False) ?m = Inr ?s"
    using ok pos by (simp add: window_out_1)
  have n2: "layer_shape training (BatchNorm2d cout) ?s = Inr ?s"
    using ok bn by simp
  have relu: "layer_shape training ReLU ?s = Inr ?s" by simp
  have tail: "yields (forward_list num training (if use_relu then [Prim ReLU] else []) y) ?s"
    if "well_formed y" "shape y = ?s" for y
    using that by (rule relu_tail_yields)
  have "yields (forward_list num training
          ([Prim (Conv2d (int C) (int C) k p s (int C) False), Prim (BatchNorm2d (int C)),
            Prim (Conv2d (int C) cout 1 0 1 1 False), Prim (BatchNorm2d cout)]
            @ (if use_relu then [Prim ReLU] else [])) x) ?s"
    apply (simp only: append_Cons append_Nil)
    apply (rule forward_list_Cons_yields [where s = ?m])
     apply (rule prim_yields, simp only: sh dw)
    apply (rule forward_list_Cons_yields [where s = ?m])
     apply (rule prim_yields, simp only: n1)
    apply (rule forward_list_Cons_yields [where s = ?s])
     apply (rule prim_yields, simp only: pw)
    apply (rule forward_list_Cons_yields [where s = ?s])
     apply (rule prim_yields, simp only: n2)
    apply (rule tail, assumption+)
    done
  then show ?thesis by (simp add: DSConvBlock_def)
qed

section \<open>Splitting and joining along the channel axis\<close>

lemma slice_channels_shape [simp]:
  "shape (slice_channels B C rest d start len) = B # len # rest"
  by (simp add: slice_channels_def Let_def)

lemma slice_channels_wf: "well_formed (slice_channels B C rest d start len)"
  by (simp add: slice_channels_def Let_def well_formed_def numel_def mult.assoc)

lemma slice_channels_cell:
  assumes b: "b < B" and c: "c < len" and r: "r < numel rest"
  shows "cell (slice_channels B C rest d start len) b c r = d ! ((b * C + start + c) * numel rest + r)"
proof -
  let ?i = "numel rest"
  let ?k = "(b * len + c) * ?i + r"
  have lt: "?k < B * len * ?i" by (rule digit_less [OF digit_less [OF b c] r])
  have d1: "?k div ?i = b * len + c" and m1: "?k mod ?i = r" using r by simp_all
  have d2: "(b * len + c) div len = b" and m2: "(b * len + c) mod len = c" using c by simp_all
  have "cell (slice_channels B C rest d start len) b c r
          = data (slice_channels B C rest d start len) ! ?k"
    by (simp add: cell_def)
  also have "\<dots> = d ! (((?k div ?i) div len * C + start + (?k div ?i) mod len) * ?i + ?k mod ?i)"
    using lt by (simp add: slice_channels_def Let_def)
  also have "\<dots> = d ! ((b * C + start + c) * ?i + r)"
    by (simp only: d1 m1 d2 m2)
  finally show ?thesis .
qed

lemma chunk_even:
  assumes sh: "shape x = B # (2 * n) # rest" and n: "1 \<le> n"
  shows "chunk x 2 = Inr [slice_channels B (2 * n) rest (data x) 0 n,
                          slice_channels B (2 * n) rest (data x) n n]"
proof -
  have size: "(2 * n + 2 - 1) div 2 = n" by simp
  have "3 * n - Suc 0 = 2 * n + (n - 1)" using n by simp
  moreover have "(2 * n + (n - 1)) div n = 2" using n digit_div [of "n - 1" n 2] by simp
  ultimately have count: "(3 * n - Suc 0) div n = 2" by (simp only:)
  have upt2: "[0..<2] = [0, Suc 0]" by (simp add: numeral_2_eq_2)
  show ?thesis
    using n by (simp add: chunk_def sh size count upt2 Let_def)
qed

lemma cat_result:
  assumes l: "shape l = B # C1 # rest" and r: "shape r = B # C2 # rest"
  shows "\<exists>m. cat l r = Inr m \<and> well_formed m \<and> shape m = B # (C1 + C2) # rest
           \<and> (\<forall>b<B. \<forall>i<numel rest.
                 (\<forall>c<C1. cell m b c i = cell l b c i)
               \<and> (\<forall>c<C2. cell m b (C1 + c) i = cell r b c i))"
proof -
  let ?i = "numel rest" and ?C = "C1 + C2"
  let ?f = "\<lambda>k. let b = (k div ?i) div ?C; c = (k div ?i) mod ?C; i = k mod ?i
                in if c < C1 then data l ! ((b * C1 + c) * ?i + i)
                   else data r ! ((b * C2 + (c - C1)) * ?i + i)"
  let ?m = "\<lparr>shape = B # ?C # rest, data = map ?f [0..<B * ?C * ?i]\<rparr>"
  have 1: "cat l r = Inr ?m" by (simp add: cat_def l r Let_def)
  have 2: "well_formed ?m" by (simp add: well_formed_def numel_def mult.assoc)
  have nth: "cell ?m b c i = ?f ((b * ?C + c) * ?i + i)" if "b < B" "c < ?C" "i < ?i" for b c i
  proof -
    have "(b * ?C + c) * ?i + i < B * ?C * ?i"
      by (rule digit_less [OF digit_less [OF that(1) that(2)] that(3)])
    then show ?thesis by (simp add: cell_def)
  qed
  have dm: "((b * ?C + c) * ?i + i) div ?i = b * ?C + c" "((b * ?C + c) * ?i + i) mod ?i = i"
           "(b * ?C + c) div ?C = b" "(b * ?C + c) mod ?C = c"
    if "c < ?C" "i < ?i" for b c i
    using that digit_div [of c ?C b] digit_mod [of c ?C b] by simp_all
  have 3: "cell ?m b c i = cell l b c i" if "b < B" "i < ?i" "c < C1" for b c i
  proof -
    have c: "c < ?C" using that by simp
    have "cell ?m b c i = ?f ((b * ?C + c) * ?i + i)" by (rule nth [OF that(1) c that(2)])
    also have "\<dots> = data l ! ((b * C1 + c) * ?i + i)"
      using that(3) by (simp only: Let_def dm [OF c that(2)] if_True)
    also have "\<dots> = cell l b c i" by (simp add: cell_def l)
    finally show ?thesis .
  qed
  have 4: "cell ?m b (C1 + c) i = cell r b c i" if "b < B" "i < ?i" "c < C2" for b c i
  proof -
    have c: "C1 + c < ?C" using that by simp
    have "cell ?m b (C1 + c) i = ?f ((b * ?C + (C1 + c)) * ?i + i)"
      by (rule nth [OF that(1) c that(2)])
    also have "\<dots> = data r ! ((b * C2 + c) * ?i + i)"
      by (simp only: Let_def dm [OF c that(2)]) simp
    also have "\<dots> = cell r b c i" by (simp add: cell_def r)
    finally show ?thesis .
  qed
  show ?thesis using 1 2 3 4 by (intro exI [of _ ?m]) simp
qed

section \<open>The branches of the residual unit\<close>

lemma window_out_3_le: "1 \<le> s \<Longrightarrow> 1 \<le> h \<Longrightarrow> window_out h 3 1 s \<le> h"
proof -
  assume s: "1 \<le> s" and h: "1 \<le> h"
  have "window_out h 3 1 (int (nat s)) = (h - 1) div nat s + 1"
    using s h by (intro window_out_3) simp_all
  moreover have "int (nat s) = s" using s by simp
  ultimately have e: "window_out h 3 1 s = (h - 1) div nat s + 1" by simp
  have "(h - 1) div nat s + 1 \<le> (h - 1) + 1"
    by (rule add_right_mono) (rule div_le_dividend)
  also have "\<dots> = h" using h by simp
  finally show ?thesis using e by simp
qed

lemma one_value_mono:
  assumes "B * h' * w' \<noteq> 1" "1 \<le> B" "1 \<le> h'" "1 \<le> w'" "h' \<le> h" "w' \<le> (w::nat)"
  shows "B * h * w \<noteq> 1"
proof
  assume "B * h * w = 1"
  then have "B = 1" "h = 1" "w = 1" by simp_all
  then have "h' = 1" "w' = 1" using assms by simp_all
  then show False using assms(1) \<open>B = 1\<close> by simp
qed

lemma right_branch_yields:
  assumes sh: "shape z = [B, Cr, H, W]"
    and ok: "1 \<le> B" "1 \<le> Cr" "1 \<le> n" "1 \<le> s" "1 \<le> H" "1 \<le> W"
    and bn: "training \<longrightarrow> B * window_out H 3 1 s * window_out W 3 1 s \<noteq> 1"
  shows "yields (forward num training
                   (Sequential [ConvBlock (int Cr) (int n) 1 0 1 True,
                                DSConvBlock (int n) (int n) 3 1 s True]) z)
           [B, n, window_out H 3 1 s, window_out W 3 1 s]"
proof -
  let ?h = "window_out H 3 1 s" and ?w = "window_out W 3 1 s"
  have "3 \<le> int H + 2 * 1" "3 \<le> int W + 2 * 1" using ok by simp_all
  then have pos: "1 \<le> ?h" "1 \<le> ?w"
    using ok(4) by (simp_all only: window_out_pos)
  have le: "?h \<le> H" "?w \<le> W"
    using ok by (simp_all add: window_out_3_le)
  have bn1: "training \<longrightarrow> B * window_out H 1 0 1 * window_out W 1 0 1 \<noteq> 1"
    using bn one_value_mono [OF _ ok(1) pos le] by (auto simp: window_out_1)
  have 1: "yields (forward num training (ConvBlock (int Cr) (int n) 1 0 1 True) z) [B, n, H, W]"
    using ConvBlock_yields [OF sh ok(2), of "int n" 1 1 0 training num True] ok bn1
    by (simp add: window_out_1)
  have 2: "yields (forward num training (DSConvBlock (int n) (int n) 3 1 s True) y) [B, n, ?h, ?w]"
    if "shape y = [B, n, H, W]" for y
    using DSConvBlock_yields [OF that ok(3), of "int n" 3 s 1 training num True] ok bn
    by simp
  have "yields (forward_list num training
                  [ConvBlock (int Cr) (int n) 1 0 1 True, DSConvBlock (int n) (int n) 3 1 s True] z)
          [B, n, ?h, ?w]"
    apply (rule forward_list_Cons_yields [OF 1])
    apply (rule forward_list_Cons_yields [OF 2])
     apply assumption
    apply (rule forward_list_Nil_yields, assumption+)
    done
  then show ?thesis by simp
qed

lemma split_block:
  fixes x :: "'a tensor"
  assumes sh: "shape x = [B, 2 * n, H, W]"
    and n: "1 \<le> n" and ok: "1 \<le> B" "1 \<le> H" "1 \<le> W"
    and bn: "training \<longrightarrow> B * H * W \<noteq> 1"
  shows "\<exists>left right_in right_out merged y.
           chunk x 2 = Inr [left, right_in]
         \<and> shape left = [B, n, H, W] \<and> shape right_in = [B, n, H, W]
         \<and> (\<forall>b<B. \<forall>c<n. \<forall>r<H * W.
               cell left b c r = cell x b c r \<and> cell right_in b c r = cell x b (n + c) r)
         \<and> forward num training
               (Sequential [ConvBlock (int n) (int n) 1 0 1 True,
                            DSConvBlock (int n) (int n) 3 1 1 True]) right_in
             = Inr right_out
         \<and> shape right_out = [B, n, H, W]
         \<and> cat left right_out = Inr merged
         \<and> shape merged = [B, 2 * n, H, W]
         \<and> (\<forall>b<B. \<forall>c<n. \<forall>r<H * W.
               cell merged b c r = cell left b c r
             \<and> cell merged b (n + c) r = cell right_out b c r)
         \<and> channel_shuffle merged 2 = Inr y
         \<and> forward num training
               (Block None
                  (Sequential [ConvBlock (int n) (int n) 1 0 1 True,
                               DSConvBlock (int n) (int n) 3 1 1 True])) x = Inr y
         \<and> well_formed y \<and> shape y = [B, 2 * n, H, W]
         \<and> (\<forall>b<B. \<forall>c<n. \<forall>r<H * W.
               cell y b (2 * c) r = cell x b c r \<and> cell y b (2 * c + 1) r = cell right_out b c r)"
proof -
  let ?right = "Sequential [ConvBlock (int n) (int n) 1 0 1 True, DSConvBlock (int n) (int n) 3 1 1 True]"
  let ?l = "slice_channels B (2 * n) [H, W] (data x) 0 n"
  let ?r = "slice_channels B (2 * n) [H, W] (data x) n n"
  have shx: "shape x = B # (2 * n) # [H, W]" using sh by simp
  have ch: "chunk x 2 = Inr [?l, ?r]" by (rule chunk_even [OF shx n])
  have cells_in: "cell ?l b c r = cell x b c r \<and> cell ?r b c r = cell x b (n + c) r"
    if "b < B" "c < n" "r < H * W" for b c r
    using that slice_channels_cell [of b B c n r "[H, W]" "2 * n" "data x"]
    by (simp add: numel2 cell4 [OF sh] add.assoc)
  have w1: "window_out H 3 1 1 = H" "window_out W 3 1 1 = W"
    using ok by (simp_all add: window_out_def)
  have "yields (forward num training ?right ?r) [B, n, H, W]"
    using right_branch_yields [of ?r B n H W n 1 training num] ok n bn by (simp add: w1)
  then obtain ro where ro: "forward num training ?right ?r = Inr ro" "well_formed ro" "shape ro = [B, n, H, W]"
    by (rule yieldsE)
  obtain m where m: "cat ?l ro = Inr m" "well_formed m" "shape m = B # (n + n) # [H, W]"
    and mc: "\<forall>b<B. \<forall>i<numel [H, W].
                 (\<forall>c<n. cell m b c i = cell ?l b c i) \<and> (\<forall>c<n. cell m b (n + c) i = cell ro b c i)"
    using cat_result [of ?l B n "[H, W]" ro n] ro by auto
  have shm: "shape m = [B, 2 * n, H, W]" using m by simp
  obtain y where y: "channel_shuffle m (int 2) = Inr y" "well_formed y" "shape y = [B, 2 * n, H, W]"
    and yc: "\<forall>b<B. \<forall>i<2. \<forall>j<n. \<forall>r<H * W. cell y b (j * 2 + i) r = cell m b (i * n + j) r"
    using channel_shuffle_cells [OF shm] by auto
  have y2: "channel_shuffle m 2 = Inr y" using y by simp
  have fw: "forward num training (Block None ?right) x = Inr y"
    by (simp add: ch ro m y2 del: forward.simps(2))
  have out: "cell y b (2 * c) r = cell x b c r \<and> cell y b (2 * c + 1) r = cell ro b c r"
    if "b < B" "c < n" "r < H * W" for b c r
  proof -
    have yc': "cell y b (j * 2 + i) r = cell m b (i * n + j) r" if "i < 2" "j < n" for i j
      using yc that \<open>b < B\<close> \<open>r < H * W\<close> by blast
    have "cell y b (c * 2 + 0) r = cell m b (0 * n + c) r"
      by (rule yc') (simp_all add: that)
    moreover have "cell y b (c * 2 + 1) r = cell m b (1 * n + c) r"
      by (rule yc') (simp_all add: that)
    ultimately show ?thesis using mc cells_in that by (simp add: numel2 mult.commute)
  qed
  show ?thesis
    apply (rule exI [of _ ?l], rule exI [of _ ?r], rule exI [of _ ro], rule exI [of _ m],
           rule exI [of _ y])
    using ch cells_in ro m shm mc y2 fw y out
    by (simp add: numel2)
qed

lemma width_preserving_block_yields:
  fixes x :: "'a tensor"
  assumes "shape x = [B, 2 * n, H, W]" "1 \<le> n" "1 \<le> B" "1 \<le> H" "1 \<le> W"
    and "training \<longrightarrow> B * H * W \<noteq> 1"
  shows "yields (forward num training (InvertedResidualBlock (int (2 * n)) (int (2 * n)) 1) x)
           [B, 2 * n, H, W]"
proof -
  have "InvertedResidualBlock (int (2 * n)) (int (2 * n)) 1
          = Block None
              (Sequential [ConvBlock (int n) (int n) 1 0 1 True,
                           DSConvBlock (int n) (int n) 3 1 1 True])"
    by (simp add: InvertedResidualBlock_def Let_def)
  then show ?thesis
    using split_block [OF assms, of num] by (auto simp: yields_def)
qed

lemma downsampling_block:
  fixes x :: "'a tensor"
  assumes sh: "shape x = [B, Cin, H, W]"
    and ok: "1 \<le> B" "1 \<le> Cin" "1 \<le> n" "1 \<le> s" "1 \<le> H" "1 \<le> W"
    and bn: "training \<longrightarrow> B * window_out H 3 1 s * window_out W 3 1 s \<noteq> 1"
  shows "\<exists>left_out right_out merged y.
           forward num training (DSConvBlock (int Cin) (int n) 3 1 s True) x = Inr left_out
         \<and> shape left_out = [B, n, window_out H 3 1 s, window_out W 3 1 s]
         \<and> forward num training
               (Sequential [ConvBlock (int Cin) (int n) 1 0 1 True,
                            DSConvBlock (int n) (int n) 3 1 s True]) x = Inr right_out
         \<and> shape right_out = [B, n, window_out H 3 1 s, window_out W 3 1 s]
         \<and> cat left_out right_out = Inr merged
         \<and> shape merged = [B, 2 * n, window_out H 3 1 s, window_out W 3 1 s]
         \<and> channel_shuffle merged 2 = Inr y
         \<and> forward num training
               (Block (Some (DSConvBlock (int Cin) (int n) 3 1 s True))
                  (Sequential [ConvBlock (int Cin) (int n) 1 0 1 True,
                               DSConvBlock (int n) (int n) 3 1 s True])) x = Inr y
         \<and> well_formed y \<and> shape y = [B, 2 * n, window_out H 3 1 s, window_out W 3 1 s]"
proof -
  let ?h = "window_out H 3 1 s" and ?w = "window_out W 3 1 s"
  let ?left = "DSConvBlock (int Cin) (int n) 3 1 s True"
  let ?right = "Sequential [ConvBlock (int Cin) (int n) 1 0 1 True, DSConvBlock (int n) (int n) 3 1 s True]"
  have "yields (forward num training ?left x) [B, n, ?h, ?w]"
    using DSConvBlock_yields [OF sh ok(2), of "int n" 3 s 1 training num True] ok bn by simp
  then obtain lo where lo: "forward num training ?left x = Inr lo" "well_formed lo" "shape lo = [B, n, ?h, ?w]"
    by (rule yieldsE)
  have "yields (forward num training ?right x) [B, n, ?h, ?w]"
    by (rule right_branch_yields [OF sh ok bn])
  then obtain ro where ro: "forward num training ?right x = Inr ro" "well_formed ro" "shape ro = [B, n, ?h, ?w]"
    by (rule yieldsE)
  obtain m where m: "cat lo ro = Inr m" "well_formed m" "shape m = B # (n + n) # [?h, ?w]"
    using cat_result [of lo B n "[?h, ?w]" ro n] lo ro by auto
  have shm: "shape m = [B, 2 * n, ?h, ?w]" using m by simp
  obtain y where y: "channel_shuffle m (int 2) = Inr y" "well_formed y" "shape y = [B, 2 * n, ?h, ?w]"
    using channel_shuffle_cells [OF shm] by auto
  have y2: "channel_shuffle m 2 = Inr y" using y by simp
  have fw: "forward num training (Block (Some ?left) ?right) x = Inr y"
    by (simp add: lo ro m y2 del: forward.simps(2))
  show ?thesis
    using lo ro m shm y2 fw y by blast
qed

lemma window_out_3_dvd:
  assumes "0 < s" "1 \<le> h" "s dvd h"
  shows "window_out h 3 1 (int s) = h div s"
proof -
  obtain q where q: "h = s * q" using assms by (auto simp: dvd_def)
  then have "1 \<le> q" using assms by (cases q) auto
  then obtain q' where q': "q = Suc q'" by (cases q) auto
  have "h - 1 = q' * s + (s - 1)" using q q' assms by (simp add: algebra_simps)
  then have "(h - 1) div s = q'" using assms digit_div [of "s - 1" s q'] by simp
  then show ?thesis using window_out_3 [OF assms(1,2)] q q' assms by simp
qed

section \<open>Stages\<close>

lemma make_layer_loop_replicate:
  "make_layer_loop k out_channels layers
     = layers @ replicate k (InvertedResidualBlock out_channels out_channels 1)"
proof (induction k arbitrary: layers)
  case 0
  show ?case by simp
next
  case (Suc k)
  show ?case by (simp add: Suc.IH replicate_app_Cons_same)
qed

lemma make_layer_units:
  "make_layer in_channels out_channels depth stride
     = Sequential (InvertedResidualBlock in_channels out_channels stride
                   # replicate (nat (depth - 1)) (InvertedResidualBlock out_channels out_channels 1))"
  by (simp add: make_layer_def make_layer_loop_replicate)

lemma forward_list_replicate_yields:
  assumes step: "\<And>z. well_formed z \<Longrightarrow> shape z = s \<Longrightarrow> yields (forward num training m z) s"
  shows "well_formed x \<Longrightarrow> shape x = s \<Longrightarrow> yields (forward_list num training (replicate k m) x) s"
proof (induction k arbitrary: x)
  case 0
  then show ?case by (simp add: yields_def)
next
  case (Suc k)
  have "yields (forward_list num training (m # replicate k m) x) s"
    by (rule forward_list_Cons_yields [OF step [OF Suc.prems]]) (rule Suc.IH)
  then show ?case by simp
qed

lemma stage_yields:
  fixes x :: "'a tensor"
  assumes sh: "shape x = [B, Cin, H, W]"
    and ok: "1 \<le> B" "1 \<le> Cin" "1 \<le> n" "1 \<le> H" "1 \<le> W"
    and bn: "training \<longrightarrow> B * window_out H 3 1 2 * window_out W 3 1 2 \<noteq> 1"
  shows "yields (forward num training (make_layer (int Cin) (int (2 * n)) depth 2) x)
           [B, 2 * n, window_out H 3 1 2, window_out W 3 1 2]"
proof -
  let ?h = "window_out H 3 1 2" and ?w = "window_out W 3 1 2"
  let ?s = "[B, 2 * n, ?h, ?w]"
  have "3 \<le> int H + 2 * 1" "3 \<le> int W + 2 * 1" using ok by simp_all
  then have pos: "1 \<le> ?h" "1 \<le> ?w"
    by (simp_all only: window_out_pos [of 2])
  have first: "yields (forward num training (InvertedResidualBlock (int Cin) (int (2 * n)) 2) x) ?s"
  proof -
    have "InvertedResidualBlock (int Cin) (int (2 * n)) 2
            = Block (Some (DSConvBlock (int Cin) (int n) 3 1 2 True))
                (Sequential [ConvBlock (int Cin) (int n) 1 0 1 True,
                             DSConvBlock (int n) (int n) 3 1 2 True])"
      by (simp add: InvertedResidualBlock_def Let_def)
    then show ?thesis
      using downsampling_block [OF sh ok(1,2,3) _ ok(4,5) bn, of num] by (auto simp: yields_def)
  qed
  have rest: "yields (forward num training (InvertedResidualBlock (int (2 * n)) (int (2 * n)) 1) z) ?s"
    if "well_formed z" "shape z = ?s" for z :: "'a tensor"
    by (rule width_preserving_block_yields [OF that(2) ok(3,1) pos bn])
  have "yields (forward_list num training
                  (InvertedResidualBlock (int Cin) (int (2 * n)) 2
                   # replicate (nat (depth - 1)) (InvertedResidualBlock (int (2 * n)) (int (2 * n)) 1)) x) ?s"
    by (rule forward_list_Cons_yields [OF first])
       (rule forward_list_replicate_yields [OF rest])
  then show ?thesis by (simp add: make_layer_units)
qed

section \<open>Forward pass of the assembled network\<close>

lemma forward_dict_Cons_yields:
  assumes "yields (forward num training m x) s"
    and "\<And>y. well_formed y \<Longrightarrow> shape y = s \<Longrightarrow> yields (forward_dict num training kms y) s'"
  shows "yields (forward_dict num training ((name, m) # kms) x) s'"
proof -
  from assms(1) obtain y where y: "forward num training m x = Inr y" "well_formed y" "shape y = s"
    by (rule yieldsE)
  show ?thesis using y assms(2) [OF y(2) y(3)] by simp
qed

lemma forward_dict_Nil_yields: "well_formed x \<Longrightarrow> shape x = s \<Longrightarrow> yields (forward_dict num training [] x) s"
  by (simp add: yields_def)

lemma halving_pos: "1 \<le> h \<Longrightarrow> 1 \<le> window_out h 3 1 2"
  by (rule window_out_pos) simp_all

lemma halving_le: "1 \<le> h \<Longrightarrow> window_out h 3 1 2 \<le> h"
  by (rule window_out_3_le) simp_all

lemma one_value_back:
  assumes "training \<longrightarrow> B * window_out h 3 1 2 * window_out w 3 1 2 \<noteq> 1"
    and "1 \<le> B" "1 \<le> h" "1 \<le> w"
  shows "training \<longrightarrow> B * h * w \<noteq> 1"
  using assms one_value_mono [OF _ assms(2) halving_pos [OF assms(3)] halving_pos [OF assms(4)]
                                halving_le [OF assms(3)] halving_le [OF assms(4)]]
  by blast

lemma head_yields:
  fixes x :: "'a tensor"
  assumes sh: "shape x = [B, C, H, W]"
    and ok: "1 \<le> B" "1 \<le> C" "1 \<le> c0" "1 \<le> H" "1 \<le> W"
    and bn: "training \<longrightarrow> B * window_out H 3 1 2 * window_out W 3 1 2 \<noteq> 1"
  shows "yields (forward num training
                   (Sequential [ConvBlock (int C) (int c0) 3 1 2 True, Prim (MaxPool2d 3 2 1)]) x)
           [B, c0, window_out (window_out H 3 1 2) 3 1 2, window_out (window_out W 3 1 2) 3 1 2]"
proof -
  let ?h = "window_out H 3 1 2" and ?w = "window_out W 3 1 2"
  have pos: "1 \<le> ?h" "1 \<le> ?w" using ok by (simp_all only: halving_pos)
  have 1: "yields (forward num training (ConvBlock (int C) (int c0) 3 1 2 True) x) [B, c0, ?h, ?w]"
    using ConvBlock_yields [OF sh ok(2), of "int c0" 3 2 1 training num True] ok bn by simp
  have 2: "layer_shape training (MaxPool2d 3 2 1) [B, c0, ?h, ?w]
             = Inr [B, c0, window_out ?h 3 1 2, window_out ?w 3 1 2]"
    using pos by simp
  have "yields (forward_list num training
                  [ConvBlock (int C) (int c0) 3 1 2 True, Prim (MaxPool2d 3 2 1)] x)
          [B, c0, window_out ?h 3 1 2, window_out ?w 3 1 2]"
    apply (rule forward_list_Cons_yields [OF 1])
    apply (rule forward_list_Cons_yields)
     apply (rule prim_yields)
     apply (simp only: 2)
    apply (rule forward_list_Nil_yields, assumption+)
    done
  then show ?thesis by simp
qed

lemma features_yields:
  fixes x :: "'a tensor"
  assumes sh: "shape x = [B, C, H, W]"
    and ok: "1 \<le> B" "1 \<le> C" "1 \<le> H" "1 \<le> W"
    and wd: "1 \<le> c0" "1 \<le> n1" "1 \<le> n2" "1 \<le> n3" "1 \<le> c4"
    and h: "h1 = window_out H 3 1 2" "h2 = window_out h1 3 1 2" "h3 = window_out h2 3 1 2"
           "h4 = window_out h3 3 1 2" "h5 = window_out h4 3 1 2"
    and v: "w1 = window_out W 3 1 2" "w2 = window_out w1 3 1 2" "w3 = window_out w2 3 1 2"
           "w4 = window_out w3 3 1 2" "w5 = window_out w4 3 1 2"
    and bn: "training \<longrightarrow> B * h5 * w5 \<noteq> 1"
  shows "yields (forward num training
           (SequentialDict
              [(''head'', Sequential [ConvBlock (int C) (int c0) 3 1 2 True, Prim (MaxPool2d 3 2 1)]),
               (''layer1'', make_layer (int c0) (int (2 * n1)) d1 2),
               (''layer2'', make_layer (int (2 * n1)) (int (2 * n2)) d2 2),
               (''layer3'', make_layer (int (2 * n2)) (int (2 * n3)) d3 2),
               (''tail'', ConvBlock (int (2 * n3)) (int c4) 1 0 1 True)]) x)
           [B, c4, h5, w5]"
proof -
  have p1: "1 \<le> h1" "1 \<le> w1" using ok h v by (simp_all only: halving_pos)
  have p2: "1 \<le> h2" "1 \<le> w2" using p1 h v by (simp_all only: halving_pos)
  have p3: "1 \<le> h3" "1 \<le> w3" using p2 h v by (simp_all only: halving_pos)
  have p4: "1 \<le> h4" "1 \<le> w4" using p3 h v by (simp_all only: halving_pos)
  have p5: "1 \<le> h5" "1 \<le> w5" using p4 h v by (simp_all only: halving_pos)
  have b5: "training \<longrightarrow> B * window_out h4 3 1 2 * window_out w4 3 1 2 \<noteq> 1"
    using bn h v by simp
  have b4: "training \<longrightarrow> B * window_out h3 3 1 2 * window_out w3 3 1 2 \<noteq> 1"
    using one_value_back [OF b5 ok(1) p4] h v by simp
  have b3: "training \<longrightarrow> B * window_out h2 3 1 2 * window_out w2 3 1 2 \<noteq> 1"
    using one_value_back [OF b4 ok(1) p3] h v by simp
  have b2: "training \<longrightarrow> B * window_out h1 3 1 2 * window_out w1 3 1 2 \<noteq> 1"
    using one_value_back [OF b3 ok(1) p2] h v by simp
  have b1: "training \<longrightarrow> B * window_out H 3 1 2 * window_out W 3 1 2 \<noteq> 1"
    using one_value_back [OF b2 ok(1) p1] h v by simp
  have n3: "1 \<le> 2 * n3" using wd by simp
  have n2: "1 \<le> 2 * n2" using wd by simp
  have n1: "1 \<le> 2 * n1" using wd by simp
  have head: "yields (forward num training
                (Sequential [ConvBlock (int C) (int c0) 3 1 2 True, Prim (MaxPool2d 3 2 1)]) x)
                [B, c0, h2, w2]"
    using head_yields [OF sh ok(1,2) wd(1) ok(3,4) b1, of num] h v by simp
  have l1: "yields (forward num training (make_layer (int c0) (int (2 * n1)) d1 2) y) [B, 2 * n1, h3, w3]"
    if "shape y = [B, c0, h2, w2]" for y :: "'a tensor"
    using stage_yields [OF that ok(1) wd(1) wd(2) p2 b3, of num d1] h v by simp
  have l2: "yields (forward num training (make_layer (int (2 * n1)) (int (2 * n2)) d2 2) y) [B, 2 * n2, h4, w4]"
    if "shape y = [B, 2 * n1, h3, w3]" for y :: "'a tensor"
    using stage_yields [OF that ok(1) n1 wd(3) p3 b4, of num d2] h v by simp
  have l3: "yields (forward num training (make_layer (int (2 * n2)) (int (2 * n3)) d3 2) y) [B, 2 * n3, h5, w5]"
    if "shape y = [B, 2 * n2, h4, w4]" for y :: "'a tensor"
    using stage_yields [OF that ok(1) n2 wd(4) p4 b5, of num d3] h v by simp
  have tail: "yields (forward num training (ConvBlock (int (2 * n3)) (int c4) 1 0 1 True) y) [B, c4, h5, w5]"
    if "shape y = [B, 2 * n3, h5, w5]" for y :: "'a tensor"
    using ConvBlock_yields [OF that n3, of "int c4" 1 1 0 training num True] wd p5 bn
    by (simp add: window_out_1)
  have "yields (forward_dict num training
           [(''head'', Sequential [ConvBlock (int C) (int c0) 3 1 2 True, Prim (MaxPool2d 3 2 1)]),
            (''layer1'', make_layer (int c0) (int (2 * n1)) d1 2),
            (''layer2'', make_layer (int (2 * n1)) (int (2 * n2)) d2 2),
            (''layer3'', make_layer (int (2 * n2)) (int (2 * n3)) d3 2),
            (''tail'', ConvBlock (int (2 * n3)) (int c4) 1 0 1 True)] x)
          [B, c4, h5, w5]"
    apply (rule forward_dict_Cons_yields [OF head])
    apply (rule forward_dict_Cons_yields [OF l1], assumption)
    apply (rule forward_dict_Cons_yields [OF l2], assumption)
    apply (rule forward_dict_Cons_yields [OF l3], assumption)
    apply (rule forward_dict_Cons_yields [OF tail], assumption)
    apply (rule forward_dict_Nil_yields, assumption+)
    done
  then show ?thesis by simp
qed

lemma classifier_yields:
  fixes y :: "'a tensor"
  assumes sh: "shape y = [B, c4, h, w]" and ok: "1 \<le> c4" "1 \<le> h" "1 \<le> w"
  shows "yields (forward num training
                   (Sequential [Prim (AdaptiveAvgPool2d 1), Prim Flatten,
                                Prim (Linear (int c4) (int nc) True)]) y)
           [B, nc]"
proof -
  have 1: "layer_shape training (AdaptiveAvgPool2d 1) [B, c4, h, w] = Inr [B, c4, 1, 1]"
    using ok by simp
  have 2: "layer_shape training Flatten [B, c4, 1, 1] = Inr [B, c4]"
    by (simp add: numel_def)
  have 3: "layer_shape training (Linear (int c4) (int nc) True) [B, c4] = Inr [B, nc]"
    by simp
  have "yields (forward_list num training
                  [Prim (AdaptiveAvgPool2d 1), Prim Flatten, Prim (Linear (int c4) (int nc) True)] y)
          [B, nc]"
    apply (rule forward_list_Cons_yields [where s = "[B, c4, 1, 1]"])
     apply (rule prim_yields, simp only: sh 1)
    apply (rule forward_list_Cons_yields [where s = "[B, c4]"])
     apply (rule prim_yields, simp only: 2)
    apply (rule forward_list_Cons_yields [where s = "[B, nc]"])
     apply (rule prim_yields, simp only: 3)
    apply (rule forward_list_Nil_yields, assumption+)
    done
  then show ?thesis by simp
qed

lemma halving_even: "1 \<le> q \<Longrightarrow> window_out (2 * q) 3 1 2 = q"
  using window_out_3_dvd [of 2 "2 * q"] by simp

lemma network_yields:
  fixes x :: "'a tensor"
  assumes sh: "shape x = [B, C, H, W]"
    and ok: "1 \<le> B" "1 \<le> C" "1 \<le> H" "1 \<le> W"
    and wd: "1 \<le> c0" "1 \<le> n1" "1 \<le> n2" "1 \<le> n3" "1 \<le> c4"
    and h: "h1 = window_out H 3 1 2" "h2 = window_out h1 3 1 2" "h3 = window_out h2 3 1 2"
           "h4 = window_out h3 3 1 2" "h5 = window_out h4 3 1 2"
    and v: "w1 = window_out W 3 1 2" "w2 = window_out w1 3 1 2" "w3 = window_out w2 3 1 2"
           "w4 = window_out w3 3 1 2" "w5 = window_out w4 3 1 2"
    and bn: "training \<longrightarrow> B * h5 * w5 \<noteq> 1"
  shows "\<exists>net. ShuffleNetV2 (int C) (int nc) [d1, d2, d3]
                 [int c0, int (2 * n1), int (2 * n2), int (2 * n3), int c4] = Inr net
             \<and> yields (forward num training net x) [B, nc]"
proof -
  let ?features = "SequentialDict
       [(''head'', Sequential [ConvBlock (int C) (int c0) 3 1 2 True, Prim (MaxPool2d 3 2 1)]),
        (''layer1'', make_layer (int c0) (int (2 * n1)) d1 2),
        (''layer2'', make_layer (int (2 * n1)) (int (2 * n2)) d2 2),
        (''layer3'', make_layer (int (2 * n2)) (int (2 * n3)) d3 2),
        (''tail'', ConvBlock (int (2 * n3)) (int c4) 1 0 1 True)]"
  let ?classifier = "Sequential [Prim (AdaptiveAvgPool2d 1), Prim Flatten,
                                 Prim (Linear (int c4) (int nc) True)]"
  let ?net = "SequentialDict [(''features'', ?features), (''classifier'', ?classifier)]"
  have net: "ShuffleNetV2 (int C) (int nc) [d1, d2, d3]
               [int c0, int (2 * n1), int (2 * n2), int (2 * n3), int c4] = Inr ?net"
    by (simp add: ShuffleNetV2_def Let_def)
  have p1: "1 \<le> h1" "1 \<le> w1" using ok h v by (simp_all only: halving_pos)
  have p2: "1 \<le> h2" "1 \<le> w2" using p1 h v by (simp_all only: halving_pos)
  have p3: "1 \<le> h3" "1 \<le> w3" using p2 h v by (simp_all only: halving_pos)
  have p4: "1 \<le> h4" "1 \<le> w4" using p3 h v by (simp_all only: halving_pos)
  have p5: "1 \<le> h5" "1 \<le> w5" using p4 h v by (simp_all only: halving_pos)
  have f: "yields (forward num training ?features x) [B, c4, h5, w5]"
    by (rule features_yields [OF sh ok wd h v bn])
  have c: "yields (forward num training ?classifier y) [B, nc]"
    if "shape y = [B, c4, h5, w5]" for y :: "'a tensor"
    by (rule classifier_yields [OF that wd(5) p5])
  have "yields (forward_dict num training [(''features'', ?features), (''classifier'', ?classifier)] x)
          [B, nc]"
    apply (rule forward_dict_Cons_yields [OF f])
    apply (rule forward_dict_Cons_yields [OF c], assumption)
    apply (rule forward_dict_Nil_yields, assumption+)
    done
  then have "yields (forward num training ?net x) [B, nc]" by simp
  then show ?thesis using net by blast
qed

lemma network_yields_224:
  fixes x :: "'a tensor"
  assumes sh: "shape x = [B, C, 224, 224]" and ok: "1 \<le> B" "1 \<le> C"
    and wd: "1 \<le> c0" "1 \<le> n1" "1 \<le> n2" "1 \<le> n3" "1 \<le> c4"
  shows "\<exists>net. ShuffleNetV2 (int C) (int nc) [d1, d2, d3]
                 [int c0, int (2 * n1), int (2 * n2), int (2 * n3), int c4] = Inr net
             \<and> yields (forward num training net x) [B, nc]"
proof -
  have h: "112 = window_out 224 3 1 2" "56 = window_out 112 3 1 2" "28 = window_out 56 3 1 2"
          "14 = window_out 28 3 1 2" "7 = window_out 14 3 1 2"
    by (simp_all add: window_out_def)
  have bn: "training \<longrightarrow> B * 7 * 7 \<noteq> 1" by simp
  show ?thesis
    by (rule network_yields [OF sh ok _ _ wd h h bn]) simp_all
qed

section \<open>The stride-1 unit\<close>

text \<open>
  Claim C1. A unit built with stride 1 and \<open>C\<close> input and output channels, \<open>C\<close> even, has no
  left branch; its right branch is \<open>ConvBlock(C/2, C/2, 1)\<close> followed by
  \<open>DSConvBlock(C/2, C/2, 3, padding 1, stride 1)\<close>. On an input of shape \<open>(B, C, H, W)\<close> the
  forward pass splits the channels at the midpoint, leaves the first \<open>C/2\<close> channels as they
  are, sends the last \<open>C/2\<close> through the right branch, concatenates the untouched half first
  and the transformed half second, and shuffles with two groups. The output has shape
  \<open>(B, C, H, W)\<close>; its even channels are the untouched input channels. In training mode the
  normalization layers need more than one value per channel.
\<close>

theorem stride1_unit:
  fixes x :: "'a tensor"
  assumes w: "well_formed x" and sh: "shape x = [B, C, H, W]"
    and C: "even C" "2 \<le> C" and ok: "1 \<le> B" "1 \<le> H" "1 \<le> W"
    and bn: "training \<longrightarrow> B * H * W \<noteq> 1"
  shows "\<exists>left right_in right_out merged y.
           InvertedResidualBlock (int C) (int C) 1
             = Block None
                 (Sequential [ConvBlock (int (C div 2)) (int (C div 2)) 1 0 1 True,
                              DSConvBlock (int (C div 2)) (int (C div 2)) 3 1 1 True])
         \<and> chunk x 2 = Inr [left, right_in]
         \<and> shape left = [B, C div 2, H, W] \<and> shape right_in = [B, C div 2, H, W]
         \<and> (\<forall>b<B. \<forall>c<C div 2. \<forall>r<H * W.
               cell left b c r = cell x b c r \<and> cell right_in b c r = cell x b (C div 2 + c) r)
         \<and> forward num training
               (Sequential [ConvBlock (int (C div 2)) (int (C div 2)) 1 0 1 True,
                            DSConvBlock (int (C div 2)) (int (C div 2)) 3 1 1 True]) right_in
             = Inr right_out
         \<and> shape right_out = [B, C div 2, H, W]
         \<and> cat left right_out = Inr merged
         \<and> shape merged = [B, C, H, W]
         \<and> (\<forall>b<B. \<forall>c<C div 2. \<forall>r<H * W.
               cell merged b c r = cell left b c r
             \<and> cell merged b (C div 2 + c) r = cell right_out b c r)
         \<and> channel_shuffle merged 2 = Inr y
         \<and> forward num training (InvertedResidualBlock (int C) (int C) 1) x = Inr y
         \<and> well_formed y \<and> shape y = [B, C, H, W]
         \<and> (\<forall>b<B. \<forall>c<C div 2. \<forall>r<H * W.
               cell y b (2 * c) r = cell x b c r \<and> cell y b (2 * c + 1) r = cell right_out b c r)"
proof -
  define n where "n = C div 2"
  have Cn: "C = 2 * n" and n: "1 \<le> n" using C by (auto simp: n_def)
  have shn: "shape x = [B, 2 * n, H, W]" using sh Cn by simp
  have block: "InvertedResidualBlock (int C) (int C) 1
                 = Block None
                     (Sequential [ConvBlock (int n) (int n) 1 0 1 True,
                                  DSConvBlock (int n) (int n) 3 1 1 True])"
    by (simp add: InvertedResidualBlock_def Cn Let_def)
  show ?thesis
    using split_block [OF shn n ok bn, of num]
    unfolding n_def [symmetric] block Cn [symmetric]
    by blast
qed

theorem stride1_unit_witness:
  "well_formed \<lparr>shape = [1, 2, 1, 2], data = [0, 1, 2, 3 :: nat]\<rparr>
   \<and> even (2::nat) \<and> (2::nat) \<le> 2 \<and> (1::nat) * 1 * 2 \<noteq> 1
   \<and> (\<exists>y. forward (\<lambda>l x k. 0) True (InvertedResidualBlock 2 2 1)
              \<lparr>shape = [1, 2, 1, 2], data = [0, 1, 2, 3 :: nat]\<rparr> = Inr y
          \<and> shape y = [1, 2, 1, 2]
          \<and> cell y 0 0 1 = 1)"
proof -
  have w: "well_formed \<lparr>shape = [1, 2, 1, 2], data = [0, 1, 2, 3 :: nat]\<rparr>"
    by (simp add: well_formed_def numel_def)
  have s: "shape \<lparr>shape = [1, 2, 1, 2], data = [0, 1, 2, 3 :: nat]\<rparr> = [1, 2, 1, 2]"
    by simp
  have c: "cell \<lparr>shape = [1, 2, 1, 2], data = [0, 1, 2, 3 :: nat]\<rparr> 0 0 1 = 1"
    by (simp add: cell_def numel_def)
  obtain y where
    "forward (\<lambda>l x k. 0) True (InvertedResidualBlock (int 2) (int 2) 1)
       \<lparr>shape = [1, 2, 1, 2], data = [0, 1, 2, 3 :: nat]\<rparr> = Inr y"
    "shape y = [1, 2, 1, 2]"
    "\<forall>b<1. \<forall>c<2 div 2. \<forall>r<1 * 2.
       cell y b (2 * c) r = cell \<lparr>shape = [1, 2, 1, 2], data = [0, 1, 2, 3 :: nat]\<rparr> b c r"
    using stride1_unit [OF w s, of True "\<lambda>l x k. 0"] by auto
  then show ?thesis using w c by auto
qed
section \<open>The downsampling unit\<close>

text \<open>
  Claim C2. A unit built with stride \<open>s > 1\<close>, \<open>Cin\<close> input channels and an even number \<open>Cout\<close>
  of output channels has the left branch \<open>DSConvBlock(Cin, Cout/2, 3, padding 1, stride s)\<close>
  and the right branch \<open>ConvBlock(Cin, Cout/2, 1)\<close> followed by
  \<open>DSConvBlock(Cout/2, Cout/2, 3, padding 1, stride s)\<close>. Both branches receive the whole
  input; their outputs are concatenated to \<open>Cout\<close> channels and shuffled with two groups.
  Each spatial extent \<open>h\<close> becomes \<open>floor((h + 2 - 3) / s) + 1\<close>, which is \<open>h / s\<close> when \<open>s\<close>
  divides \<open>h\<close>. In training mode the normalization layers need more than one value per
  channel.
\<close>

theorem downsampling_unit:
  fixes x :: "'a tensor"
  assumes w: "well_formed x" and sh: "shape x = [B, Cin, H, W]"
    and C: "1 \<le> Cin" "even Cout" "2 \<le> Cout" and s: "1 < s"
    and ok: "1 \<le> B" "1 \<le> H" "1 \<le> W"
    and bn: "training \<longrightarrow> B * ((H - 1) div s + 1) * ((W - 1) div s + 1) \<noteq> 1"
  shows "\<exists>left_out right_out merged y.
           InvertedResidualBlock (int Cin) (int Cout) (int s)
             = Block (Some (DSConvBlock (int Cin) (int (Cout div 2)) 3 1 (int s) True))
                 (Sequential [ConvBlock (int Cin) (int (Cout div 2)) 1 0 1 True,
                              DSConvBlock (int (Cout div 2)) (int (Cout div 2)) 3 1 (int s) True])
         \<and> forward num training (DSConvBlock (int Cin) (int (Cout div 2)) 3 1 (int s) True) x
             = Inr left_out
         \<and> forward num training
               (Sequential [ConvBlock (int Cin) (int (Cout div 2)) 1 0 1 True,
                            DSConvBlock (int (Cout div 2)) (int (Cout div 2)) 3 1 (int s) True]) x
             = Inr right_out
         \<and> shape left_out = [B, Cout div 2, (H - 1) div s + 1, (W - 1) div s + 1]
         \<and> shape right_out = [B, Cout div 2, (H - 1) div s + 1, (W - 1) div s + 1]
         \<and> cat left_out right_out = Inr merged
         \<and> shape merged = [B, Cout, (H - 1) div s + 1, (W - 1) div s + 1]
         \<and> channel_shuffle merged 2 = Inr y
         \<and> forward num training (InvertedResidualBlock (int Cin) (int Cout) (int s)) x = Inr y
         \<and> well_formed y
         \<and> shape y = [B, Cout, (H - 1) div s + 1, (W - 1) div s + 1]
         \<and> (H - 1) div s + 1 = nat ((int H + 2 * 1 - 3) div int s + 1)
         \<and> (W - 1) div s + 1 = nat ((int W + 2 * 1 - 3) div int s + 1)
         \<and> (s dvd H \<longrightarrow> (H - 1) div s + 1 = H div s)
         \<and> (s dvd W \<longrightarrow> (W - 1) div s + 1 = W div s)"
proof -
  define n where "n = Cout div 2"
  have Cn: "Cout = 2 * n" and n: "1 \<le> n" using C by (auto simp: n_def)
  have s0: "0 < s" and s1: "1 \<le> int s" using s by simp_all
  have h: "window_out H 3 1 (int s) = (H - 1) div s + 1" by (rule window_out_3 [OF s0 ok(2)])
  have v: "window_out W 3 1 (int s) = (W - 1) div s + 1" by (rule window_out_3 [OF s0 ok(3)])
  have block: "InvertedResidualBlock (int Cin) (int Cout) (int s)
                 = Block (Some (DSConvBlock (int Cin) (int n) 3 1 (int s) True))
                     (Sequential [ConvBlock (int Cin) (int n) 1 0 1 True,
                                  DSConvBlock (int n) (int n) 3 1 (int s) True])"
    using s by (simp add: InvertedResidualBlock_def Cn Let_def)
  have bn': "training \<longrightarrow> B * window_out H 3 1 (int s) * window_out W 3 1 (int s) \<noteq> 1"
    using bn by (simp only: h v)
  have f: "(H - 1) div s + 1 = nat ((int H + 2 * 1 - 3) div int s + 1)"
          "(W - 1) div s + 1 = nat ((int W + 2 * 1 - 3) div int s + 1)"
    using h v by (simp_all add: window_out_def)
  have d: "s dvd H \<longrightarrow> (H - 1) div s + 1 = H div s" "s dvd W \<longrightarrow> (W - 1) div s + 1 = W div s"
    using window_out_3_dvd [OF s0 ok(2)] window_out_3_dvd [OF s0 ok(3)] h v by auto
  show ?thesis
    using downsampling_block [OF sh ok(1) C(1) n s1 ok(2,3) bn', of num] f d
    unfolding n_def [symmetric] block h v Cn [symmetric]
    by blast
qed

theorem downsampling_unit_witness:
  "well_formed \<lparr>shape = [1, 1, 2, 4], data = [0, 1, 2, 3, 4, 5, 6, 7 :: nat]\<rparr>
   \<and> (1::nat) \<le> 1 \<and> even (2::nat) \<and> (1::nat) < 2
   \<and> (1::nat) * ((2 - 1) div 2 + 1) * ((4 - 1) div 2 + 1) \<noteq> 1
   \<and> (\<exists>y. forward (\<lambda>l x k. 0) True (InvertedResidualBlock 1 2 2)
              \<lparr>shape = [1, 1, 2, 4], data = [0, 1, 2, 3, 4, 5, 6, 7 :: nat]\<rparr> = Inr y
          \<and> shape y = [1, 2, 1, 2])"
proof -
  have w: "well_formed \<lparr>shape = [1, 1, 2, 4], data = [0, 1, 2, 3, 4, 5, 6, 7 :: nat]\<rparr>"
    by (simp add: well_formed_def numel_def)
  have s: "shape \<lparr>shape = [1, 1, 2, 4], data = [0, 1, 2, 3, 4, 5, 6, 7 :: nat]\<rparr> = [1, 1, 2, 4]"
    by simp
  obtain y where
    "forward (\<lambda>l x k. 0) True (InvertedResidualBlock (int 1) (int 2) (int 2))
       \<lparr>shape = [1, 1, 2, 4], data = [0, 1, 2, 3, 4, 5, 6, 7 :: nat]\<rparr> = Inr y"
    "shape y = [1, 2, (2 - 1) div 2 + 1, (4 - 1) div 2 + 1]"
    using downsampling_unit [OF w s, of 2 2 True "\<lambda>l x k. 0"] by auto
  then show ?thesis using w by auto
qed

section \<open>The presets on 224 by 224 inputs\<close>

text \<open>
  Claim C3. For each of the four presets, \<open>in_channels\<close> 1 or 3, \<open>num_classes\<close> 1, 10 or
  1000 and any batch size \<open>B\<close> of at least one, the network is constructed and its forward
  pass on an input of shape \<open>(B, in_channels, 224, 224)\<close> returns a tensor of shape
  \<open>(B, num_classes)\<close>, in training mode as well as in evaluation mode.
\<close>

theorem preset_forward_shape:
  fixes x :: "'a tensor"
  assumes w: "well_formed x" and sh: "shape x = [B, C, 224, 224]" and B: "1 \<le> B"
    and C: "C \<in> {1, 3}" and nc: "nc \<in> {1, 10, 1000}"
    and p: "preset \<in> {shufflenetv2_x0_5, shufflenetv2_x1_0, shufflenetv2_x1_5, shufflenetv2_x2_0}"
  shows "\<exists>net y. preset (int C) (int nc) = Inr net
               \<and> forward num training net x = Inr y \<and> shape y = [B, nc]"
proof -
  have C1: "1 \<le> C" using C by auto
  have a: "\<exists>net. shufflenetv2_x0_5 (int C) (int nc) = Inr net
                \<and> yields (forward num training net x) [B, nc]"
    using network_yields_224 [OF sh B C1, of 24 24 48 96 1024 nc 4 8 4 num training]
    by (simp add: shufflenetv2_x0_5_def)
  have b: "\<exists>net. shufflenetv2_x1_0 (int C) (int nc) = Inr net
                \<and> yields (forward num training net x) [B, nc]"
    using network_yields_224 [OF sh B C1, of 24 58 116 232 1024 nc 4 8 4 num training]
    by (simp add: shufflenetv2_x1_0_def)
  have c: "\<exists>net. shufflenetv2_x1_5 (int C) (int nc) = Inr net
                \<and> yields (forward num training net x) [B, nc]"
    using network_yields_224 [OF sh B C1, of 24 88 176 352 1024 nc 4 8 4 num training]
    by (simp add: shufflenetv2_x1_5_def)
  have d: "\<exists>net. shufflenetv2_x2_0 (int C) (int nc) = Inr net
                \<and> yields (forward num training net x) [B, nc]"
    using network_yields_224 [OF sh B C1, of 24 122 244 488 2048 nc 4 8 4 num training]
    by (simp add: shufflenetv2_x2_0_def)
  have "\<exists>net. preset (int C) (int nc) = Inr net \<and> yields (forward num training net x) [B, nc]"
    using p a b c d by auto
  then obtain net where "preset (int C) (int nc) = Inr net"
    "yields (forward num training net x) [B, nc]" by blast
  then show ?thesis by (auto elim: yieldsE)
qed

theorem preset_forward_shape_witness:
  "well_formed \<lparr>shape = [1, 3, 224, 224], data = replicate 150528 (0::nat)\<rparr>
   \<and> (1::nat) \<le> 1 \<and> (3::nat) \<in> {1, 3} \<and> (1000::nat) \<in> {1, 10, 1000}
   \<and> (\<exists>net y. shufflenetv2_x1_0 3 1000 = Inr net
         \<and> forward (\<lambda>l x k. 0) True net
              \<lparr>shape = [1, 3, 224, 224], data = replicate 150528 (0::nat)\<rparr> = Inr y
         \<and> shape y = [1, 1000])"
proof -
  have w: "well_formed \<lparr>shape = [1, 3, 224, 224], data = replicate 150528 (0::nat)\<rparr>"
    by (simp add: well_formed_def numel_def)
  have s: "shape \<lparr>shape = [1, 3, 224, 224], data = replicate 150528 (0::nat)\<rparr> = [1, 3, 224, 224]"
    by simp
  have "\<exists>net y. shufflenetv2_x1_0 (int 3) (int 1000) = Inr net
          \<and> forward (\<lambda>l x k. 0) True net
               \<lparr>shape = [1, 3, 224, 224], data = replicate 150528 (0::nat)\<rparr> = Inr y
          \<and> shape y = [1, 1000]"
    by (rule preset_forward_shape [OF w s]) simp_all
  then show ?thesis using w by simp
qed
section \<open>The stage builder\<close>

text \<open>
  Claim C4. For a depth \<open>d\<close> of at least one, \<open>make_layer(Cin, Cout, d)\<close> (default stride 2)
  is a sequence of exactly \<open>d\<close> units: the first is the unit from \<open>Cin\<close> to \<open>Cout\<close> channels
  with stride 2, all others are units from \<open>Cout\<close> to \<open>Cout\<close> channels with stride 1. In
  particular \<open>make_layer(24, 116, 4)\<close> has four units; on an input of shape
  \<open>(B, 24, H, W)\<close> with even \<open>H\<close> and \<open>W\<close> the first unit returns shape
  \<open>(B, 116, H/2, W/2)\<close> and each of the other three keeps that shape.
\<close>

theorem stage_builder:
  fixes x :: "'a tensor"
  assumes d: "1 \<le> d"
    and x: "well_formed x" "shape x = [B, 24, H, W]" "1 \<le> B" "1 \<le> H" "1 \<le> W" "even H" "even W"
    and bn: "training \<longrightarrow> B * (H div 2) * (W div 2) \<noteq> 1"
  shows "\<exists>units y1 y2 y3 y4.
           make_layer cin cout d 2 = Sequential units
         \<and> length units = nat d
         \<and> units ! 0 = InvertedResidualBlock cin cout 2
         \<and> (\<forall>i. 1 \<le> i \<and> i < nat d \<longrightarrow> units ! i = InvertedResidualBlock cout cout 1)
         \<and> make_layer 24 116 4 2
             = Sequential [InvertedResidualBlock 24 116 2, InvertedResidualBlock 116 116 1,
                           InvertedResidualBlock 116 116 1, InvertedResidualBlock 116 116 1]
         \<and> forward num training (InvertedResidualBlock 24 116 2) x = Inr y1
         \<and> shape y1 = [B, 116, H div 2, W div 2]
         \<and> forward num training (InvertedResidualBlock 116 116 1) y1 = Inr y2
         \<and> shape y2 = [B, 116, H div 2, W div 2]
         \<and> forward num training (InvertedResidualBlock 116 116 1) y2 = Inr y3
         \<and> shape y3 = [B, 116, H div 2, W div 2]
         \<and> forward num training (InvertedResidualBlock 116 116 1) y3 = Inr y4
         \<and> shape y4 = [B, 116, H div 2, W div 2]
         \<and> forward num training (make_layer 24 116 4 2) x = Inr y4"
proof -
  let ?units = "InvertedResidualBlock cin cout 2
                # replicate (nat (d - 1)) (InvertedResidualBlock cout cout 1)"
  let ?s = "[B, 116, H div 2, W div 2]"
  have u1: "make_layer cin cout d 2 = Sequential ?units" by (rule make_layer_units)
  have u2: "length ?units = nat d" using d by simp
  have u3: "?units ! 0 = InvertedResidualBlock cin cout 2" by simp
  have u4: "?units ! i = InvertedResidualBlock cout cout 1" if "1 \<le> i \<and> i < nat d" for i
  proof -
    from that have "0 < i" by simp
    then obtain j where j: "i = Suc j" by (cases i) simp_all
    have "j < nat (d - 1)" using that j by simp
    then show ?thesis by (simp add: j)
  qed
  have c: "make_layer 24 116 4 2
             = Sequential [InvertedResidualBlock 24 116 2, InvertedResidualBlock 116 116 1,
                           InvertedResidualBlock 116 116 1, InvertedResidualBlock 116 116 1]"
    by (simp add: make_layer_units numeral_3_eq_3)
  have hw: "window_out H 3 1 2 = H div 2" "window_out W 3 1 2 = W div 2"
    using window_out_3_dvd [of 2 H] window_out_3_dvd [of 2 W] x by simp_all
  have pos: "1 \<le> H div 2" "1 \<le> W div 2" using x by (auto elim!: evenE)
  have bn2: "training \<longrightarrow> B * window_out H 3 1 2 * window_out W 3 1 2 \<noteq> 1"
    using bn by (simp only: hw)
  have "InvertedResidualBlock 24 116 2
          = Block (Some (DSConvBlock (int 24) (int 58) 3 1 2 True))
              (Sequential [ConvBlock (int 24) (int 58) 1 0 1 True,
                           DSConvBlock (int 58) (int 58) 3 1 2 True])"
    by (simp add: InvertedResidualBlock_def Let_def)
  then obtain y1 where y1: "forward num training (InvertedResidualBlock 24 116 2) x = Inr y1"
      "well_formed y1" "shape y1 = ?s"
    using downsampling_block [OF x(2,3), of 58 2 training num] x bn2 by (auto simp: hw)
  have step: "yields (forward num training (InvertedResidualBlock 116 116 1) z) ?s"
    if "shape z = ?s" for z :: "'a tensor"
    using width_preserving_block_yields [of z B 58 "H div 2" "W div 2" training num] that x(3) pos bn
    by simp
  obtain y2 where y2: "forward num training (InvertedResidualBlock 116 116 1) y1 = Inr y2"
      "well_formed y2" "shape y2 = ?s"
    using step [OF y1(3)] by (rule yieldsE)
  obtain y3 where y3: "forward num training (InvertedResidualBlock 116 116 1) y2 = Inr y3"
      "well_formed y3" "shape y3 = ?s"
    using step [OF y2(3)] by (rule yieldsE)
  obtain y4 where y4: "forward num training (InvertedResidualBlock 116 116 1) y3 = Inr y4"
      "well_formed y4" "shape y4 = ?s"
    using step [OF y3(3)] by (rule yieldsE)
  have all: "forward num training (make_layer 24 116 4 2) x = Inr y4"
    by (simp add: c y1 y2 y3 y4)
  show ?thesis
    using u1 u2 u3 u4 c y1 y2 y3 y4 all by blast
qed

theorem stage_builder_witness:
  "(1::int) \<le> 4
   \<and> well_formed \<lparr>shape = [1, 24, 2, 4], data = replicate 192 (0::nat)\<rparr>
   \<and> even (2::nat) \<and> even (4::nat)
   \<and> (1::nat) * (2 div 2) * (4 div 2) \<noteq> 1
   \<and> (\<exists>units y. make_layer 24 116 4 2 = Sequential units \<and> length units = 4
          \<and> forward (\<lambda>l x k. 0) True (make_layer 24 116 4 2)
               \<lparr>shape = [1, 24, 2, 4], data = replicate 192 (0::nat)\<rparr> = Inr y
          \<and> shape y = [1, 116, 1, 2])"
proof -
  have d: "(1::int) \<le> 4" by simp
  have w: "well_formed \<lparr>shape = [1, 24, 2, 4], data = replicate 192 (0::nat)\<rparr>"
    by (simp add: well_formed_def numel_def)
  have s: "shape \<lparr>shape = [1, 24, 2, 4], data = replicate 192 (0::nat)\<rparr> = [1, 24, 2, 4]"
    by simp
  obtain units y4 where
    "make_layer 24 116 4 2 = Sequential units" "length units = nat 4"
    "shape y4 = [1, 116, 2 div 2, 4 div 2]"
    "forward (\<lambda>l x k. 0) True (make_layer 24 116 4 2)
       \<lparr>shape = [1, 24, 2, 4], data = replicate 192 (0::nat)\<rparr> = Inr y4"
    using stage_builder [OF d w s, of True 24 116 "\<lambda>l x k. 0"] by auto
  then show ?thesis using w by auto
qed

section \<open>What construction checks\<close>




text \<open>
  Claim C6. With two groups, a six-channel cell \<open>[0,1,2,3,4,5]\<close> is shuffled to
  \<open>[0,3,1,4,2,5]\<close>. In general, for a group count \<open>g\<close> dividing the channel count \<open>C\<close>, the
  shuffle succeeds, keeps the shape, and output channel \<open>j * g + i\<close> is input channel
  \<open>i * (C div g) + j\<close> (the transpose of the \<open>g\<close> by \<open>C div g\<close> arrangement of the channels),
  at the same batch element and the same spatial position.
\<close>

theorem channel_shuffle_is_group_transpose:
  fixes x :: "'a tensor"
  assumes "shape x = [B, C, H, W]" and "0 < g" and "g dvd C"
  shows "channel_shuffle \<lparr>shape = [1, 6, 1, 1], data = [0, 1, 2, 3, 4, 5 :: nat]\<rparr> 2
           = Inr \<lparr>shape = [1, 6, 1, 1], data = [0, 3, 1, 4, 2, 5]\<rparr>
         \<and> (\<exists>y. channel_shuffle x (int g) = Inr y \<and> well_formed y \<and> shape y = shape x
               \<and> (\<forall>b<B. \<forall>i<g. \<forall>j<C div g. \<forall>r<H * W.
                     cell y b (j * g + i) r = cell x b (i * (C div g) + j) r))"
proof -
  have c: "C = g * (C div g)" using assms by simp
  have sh: "shape x = [B, g * (C div g), H, W]" using assms(1) c by simp
  have "channel_shuffle \<lparr>shape = [1, 6, 1, 1], data = [0, 1, 2, 3, 4, 5 :: nat]\<rparr> 2
           = Inr \<lparr>shape = [1, 6, 1, 1], data = [0, 3, 1, 4, 2, 5]\<rparr>"
    by code_simp
  moreover have "\<exists>y. channel_shuffle x (int g) = Inr y \<and> well_formed y \<and> shape y = shape x
               \<and> (\<forall>b<B. \<forall>i<g. \<forall>j<C div g. \<forall>r<H * W.
                     cell y b (j * g + i) r = cell x b (i * (C div g) + j) r)"
    using channel_shuffle_cells [OF sh assms(2)] sh by simp
  ultimately show ?thesis by simp
qed

theorem channel_shuffle_is_group_transpose_witness:
  "shape \<lparr>shape = [1, 6, 1, 1], data = [0, 1, 2, 3, 4, 5 :: nat]\<rparr> = [1, 6, 1, 1]
   \<and> (0::nat) < 2 \<and> (2::nat) dvd 6
   \<and> (\<exists>y. channel_shuffle \<lparr>shape = [1, 6, 1, 1], data = [0, 1, 2, 3, 4, 5 :: nat]\<rparr> 2 = Inr y
         \<and> well_formed y \<and> shape y = [1, 6, 1, 1]
         \<and> cell y 0 (2 * 2 + 1) 0 = 5 \<and> cell y 0 (1 * 2 + 0) 0 = 1)"
proof -
  let ?x = "\<lparr>shape = [1, 6, 1, 1], data = [0, 1, 2, 3, 4, 5 :: nat]\<rparr>"
  have h: "shape ?x = [1, 6, 1, 1]" by simp
  have g: "(0::nat) < 2" and d: "(2::nat) dvd 6" by simp_all
  have c: "cell ?x 0 (1 * (6 div 2) + 2) 0 = 5" "cell ?x 0 (0 * (6 div 2) + 1) 0 = 1"
    by (simp_all add: cell_def numel_def)
  obtain y where y: "channel_shuffle ?x (int 2) = Inr y" "well_formed y" "shape y = shape ?x"
    and cells: "\<forall>b<1. \<forall>i<2. \<forall>j<6 div 2. \<forall>r<1 * 1.
                  cell y b (j * 2 + i) r = cell ?x b (i * (6 div 2) + j) r"
    using channel_shuffle_is_group_transpose [OF h g d, THEN conjunct2] by blast
  have at: "cell y b (j * 2 + i) r = cell ?x b (i * (6 div 2) + j) r"
    if "b < 1" "i < 2" "j < 6 div 2" "r < 1 * 1" for b i j r
    using cells that by blast
  have "cell y 0 (2 * 2 + 1) 0 = cell ?x 0 (1 * (6 div 2) + 2) 0"
    by (rule at) simp_all
  moreover have "cell y 0 (1 * 2 + 0) 0 = cell ?x 0 (0 * (6 div 2) + 1) 0"
    by (rule at) simp_all
  ultimately show ?thesis using y c by auto
qed

text \<open>
  Claim C7. On a tensor with six channels, the shuffle with two groups followed by the
  shuffle with three groups gives back the original tensor.
\<close>

theorem shuffle_2_then_3:
  fixes x :: "'a tensor"
  assumes "well_formed x" and "shape x = [B, 6, H, W]"
  shows "(case channel_shuffle x 2 of Inl e \<Rightarrow> Inl e | Inr y \<Rightarrow> channel_shuffle y 3) = Inr x"
  using channel_shuffle_inverse [of x B 2 3 H W] assms by (simp cong: sum.case_cong)

theorem shuffle_2_then_3_witness:
  "well_formed \<lparr>shape = [1, 6, 1, 1], data = [0, 1, 2, 3, 4, 5 :: nat]\<rparr>
   \<and> (case channel_shuffle \<lparr>shape = [1, 6, 1, 1], data = [0, 1, 2, 3, 4, 5 :: nat]\<rparr> 2 of
         Inl e \<Rightarrow> Inl e | Inr y \<Rightarrow> channel_shuffle y 3)
       = Inr \<lparr>shape = [1, 6, 1, 1], data = [0, 1, 2, 3, 4, 5 :: nat]\<rparr>"
proof -
  have w: "well_formed \<lparr>shape = [1, 6, 1, 1], data = [0, 1, 2, 3, 4, 5 :: nat]\<rparr>"
    by (simp add: well_formed_def numel_def)
  show ?thesis
    using w shuffle_2_then_3 [OF w, of 1 1 1] by simp
qed

section \<open>The assembled network\<close>

text \<open>
  Claim C8. The network is a container of \<open>features\<close> and \<open>classifier\<close>. The features are,
  in order: a head made of \<open>ConvBlock(in_channels, c0, 3, padding 1, stride 2)\<close> and a
  max-pooling with window 3, stride 2 and padding 1; three stages; and the tail
  \<open>ConvBlock(c3, c4, 1)\<close>. The classifier is global average pooling to 1 by 1, flatten, and
  a linear layer with bias to \<open>num_classes\<close>, with nothing after it. For even stage widths
  and an input whose spatial extents are positive multiples of 32, the features return
  \<open>c4\<close> channels at exactly one 32nd of the input extents. In training mode the
  normalization layers need more than one value per channel.
\<close>

theorem network_assembly:
  fixes x :: "'a tensor"
  assumes len: "3 \<le> length block_depth" "5 \<le> length block_channels"
    and x: "well_formed x" "shape x = [B, C, H, W]" "in_channels = int C" "1 \<le> B" "1 \<le> C"
    and wd: "1 \<le> block_channels ! 0"
            "2 \<le> block_channels ! 1" "even (block_channels ! 1)"
            "2 \<le> block_channels ! 2" "even (block_channels ! 2)"
            "2 \<le> block_channels ! 3" "even (block_channels ! 3)"
            "1 \<le> block_channels ! 4"
    and hw: "1 \<le> H" "32 dvd H" "1 \<le> W" "32 dvd W"
    and bn: "training \<longrightarrow> B * (H div 32) * (W div 32) \<noteq> 1"
  shows "\<exists>features classifier y.
           ShuffleNetV2 in_channels num_classes block_depth block_channels
             = Inr (SequentialDict [(''features'', features), (''classifier'', classifier)])
         \<and> features = SequentialDict
             [(''head'', Sequential [ConvBlock in_channels (block_channels ! 0) 3 1 2 True,
                                     Prim (MaxPool2d 3 2 1)]),
              (''layer1'', make_layer (block_channels ! 0) (block_channels ! 1) (block_depth ! 0) 2),
              (''layer2'', make_layer (block_channels ! 1) (block_channels ! 2) (block_depth ! 1) 2),
              (''layer3'', make_layer (block_channels ! 2) (block_channels ! 3) (block_depth ! 2) 2),
              (''tail'', ConvBlock (block_channels ! 3) (block_channels ! 4) 1 0 1 True)]
         \<and> classifier = Sequential
             [Prim (AdaptiveAvgPool2d 1), Prim Flatten,
              Prim (Linear (block_channels ! 4) num_classes True)]
         \<and> forward num training features x = Inr y
         \<and> shape y = [B, nat (block_channels ! 4), H div 32, W div 32]"
proof -
  define c0 where "c0 = nat (block_channels ! 0)"
  define n1 where "n1 = nat (block_channels ! 1 div 2)"
  define n2 where "n2 = nat (block_channels ! 2 div 2)"
  define n3 where "n3 = nat (block_channels ! 3 div 2)"
  define c4 where "c4 = nat (block_channels ! 4)"
  have c: "block_channels ! 0 = int c0" "block_channels ! 1 = int (2 * n1)"
          "block_channels ! 2 = int (2 * n2)" "block_channels ! 3 = int (2 * n3)"
          "block_channels ! 4 = int c4"
    using wd by (auto simp: c0_def n1_def n2_def n3_def c4_def)
  have pos: "1 \<le> c0" "1 \<le> n1" "1 \<le> n2" "1 \<le> n3" "1 \<le> c4"
    using wd by (auto simp: c0_def n1_def n2_def n3_def c4_def)
  obtain q where q: "H = 32 * q" using hw by (auto simp: dvd_def)
  obtain r where r: "W = 32 * r" using hw by (auto simp: dvd_def)
  have q1: "1 \<le> q" and r1: "1 \<le> r" using hw q r by (cases q; simp)+
  have hs: "16 * q = window_out H 3 1 2" "8 * q = window_out (16 * q) 3 1 2"
           "4 * q = window_out (8 * q) 3 1 2" "2 * q = window_out (4 * q) 3 1 2"
           "q = window_out (2 * q) 3 1 2"
    using halving_even [of "16 * q"] halving_even [of "8 * q"] halving_even [of "4 * q"]
          halving_even [of "2 * q"] halving_even [of q] q q1
    by simp_all
  have vs: "16 * r = window_out W 3 1 2" "8 * r = window_out (16 * r) 3 1 2"
           "4 * r = window_out (8 * r) 3 1 2" "2 * r = window_out (4 * r) 3 1 2"
           "r = window_out (2 * r) 3 1 2"
    using halving_even [of "16 * r"] halving_even [of "8 * r"] halving_even [of "4 * r"]
          halving_even [of "2 * r"] halving_even [of r] r r1
    by simp_all
  have bn': "training \<longrightarrow> B * q * r \<noteq> 1" using bn q r by simp
  let ?features = "SequentialDict
       [(''head'', Sequential [ConvBlock (int C) (int c0) 3 1 2 True, Prim (MaxPool2d 3 2 1)]),
        (''layer1'', make_layer (int c0) (int (2 * n1)) (block_depth ! 0) 2),
        (''layer2'', make_layer (int (2 * n1)) (int (2 * n2)) (block_depth ! 1) 2),
        (''layer3'', make_layer (int (2 * n2)) (int (2 * n3)) (block_depth ! 2) 2),
        (''tail'', ConvBlock (int (2 * n3)) (int c4) 1 0 1 True)]"
  have "yields (forward num training ?features x) [B, c4, q, r]"
    by (rule features_yields [OF x(2) x(4,5) hw(1,3) pos hs vs bn'])
  then obtain y where y: "forward num training ?features x = Inr y" "shape y = [B, c4, q, r]"
    by (rule yieldsE)
  have net: "ShuffleNetV2 in_channels num_classes block_depth block_channels
               = Inr (SequentialDict
                        [(''features'', ?features),
                         (''classifier'', Sequential
                            [Prim (AdaptiveAvgPool2d 1), Prim Flatten,
                             Prim (Linear (int c4) num_classes True)])])"
    using len by (simp add: ShuffleNetV2_def Let_def c c [unfolded One_nat_def] x(3))
  show ?thesis
    using net y unfolding c x(3) by (simp add: q r)
qed

theorem network_assembly_witness:
  "(3::nat) \<le> length [4, 8, 4 :: int] \<and> (5::nat) \<le> length [24, 116, 232, 464, 1024 :: int]
   \<and> well_formed \<lparr>shape = [1, 3, 32, 64], data = replicate 6144 (0::nat)\<rparr>
   \<and> (32::nat) dvd 32 \<and> (32::nat) dvd 64
   \<and> (1::nat) * (32 div 32) * (64 div 32) \<noteq> 1
   \<and> (\<exists>features classifier y.
         ShuffleNetV2 3 1000 [4, 8, 4] [24, 116, 232, 464, 1024]
           = Inr (SequentialDict [(''features'', features), (''classifier'', classifier)])
       \<and> forward (\<lambda>l x k. 0) True features
            \<lparr>shape = [1, 3, 32, 64], data = replicate 6144 (0::nat)\<rparr> = Inr y
       \<and> shape y = [1, 1024, 1, 2])"
proof -
  have l: "(3::nat) \<le> length [4, 8, 4 :: int]" "(5::nat) \<le> length [24, 116, 232, 464, 1024 :: int]"
    by simp_all
  have w: "well_formed \<lparr>shape = [1, 3, 32, 64], data = replicate 6144 (0::nat)\<rparr>"
    by (simp add: well_formed_def numel_def)
  have s: "shape \<lparr>shape = [1, 3, 32, 64], data = replicate 6144 (0::nat)\<rparr> = [1, 3, 32, 64]"
    by simp
  have i: "(3::int) = int 3" by simp
  have "\<exists>features classifier y.
         ShuffleNetV2 3 1000 [4, 8, 4] [24, 116, 232, 464, 1024]
           = Inr (SequentialDict [(''features'', features), (''classifier'', classifier)])
       \<and> forward (\<lambda>l x k. 0) True features
            \<lparr>shape = [1, 3, 32, 64], data = replicate 6144 (0::nat)\<rparr> = Inr y
       \<and> shape y = [1, nat ([24, 116, 232, 464, 1024] ! 4), 32 div 32, 64 div 32]"
    using network_assembly [OF l w s i, of True 1000 "\<lambda>l x k. 0"] by auto
  then show ?thesis using w by simp
qed

section \<open>The depthwise separable block\<close>

text \<open>
  Claim C9. \<open>DSConvBlock(Cin, Cout, k, p, s, flag)\<close> is, in this order: a convolution from
  \<open>Cin\<close> to \<open>Cin\<close> channels with \<open>Cin\<close> groups, kernel \<open>k\<close>, padding \<open>p\<close>, stride \<open>s\<close> and no bias;
  normalization over \<open>Cin\<close> channels; a 1 by 1 convolution from \<open>Cin\<close> to \<open>Cout\<close> channels
  with no bias; normalization over \<open>Cout\<close> channels; and an activation exactly when the
  flag is set. Its forward pass applies these layers one after the other.
\<close>

theorem DSConvBlock_layers:
  "DSConvBlock cin cout k p s flag
     = Sequential
         ([Prim (Conv2d cin cin k p s cin False), Prim (BatchNorm2d cin),
           Prim (Conv2d cin cout 1 0 1 1 False), Prim (BatchNorm2d cout)]
          @ (if flag then [Prim ReLU] else []))
   \<and> forward num training (DSConvBlock cin cout k p s flag) x
     = (case apply_layer num training (Conv2d cin cin k p s cin False) x of
          Inl e \<Rightarrow> Inl e
        | Inr a \<Rightarrow>
            (case apply_layer num training (BatchNorm2d cin) a of
               Inl e \<Rightarrow> Inl e
             | Inr b \<Rightarrow>
                 (case apply_layer num training (Conv2d cin cout 1 0 1 1 False) b of
                    Inl e \<Rightarrow> Inl e
                  | Inr c \<Rightarrow>
                      (case apply_layer num training (BatchNorm2d cout) c of
                         Inl e \<Rightarrow> Inl e
                       | Inr d \<Rightarrow> if flag then apply_layer num training ReLU d else Inr d))))"
  by (auto simp: DSConvBlock_def split: sum.splits)

section \<open>Odd output widths\<close>

text \<open>
  Claim C10. A unit built with stride \<open>s > 1\<close> and any output width \<open>Cout\<close> of at least two,
  odd ones included, is constructed without complaint, and its forward pass returns
  \<open>2 * (Cout // 2)\<close> channels: \<open>Cout\<close> when \<open>Cout\<close> is even, \<open>Cout - 1\<close> when it is odd.
\<close>

theorem odd_width_unit:
  fixes x :: "'a tensor"
  assumes w: "well_formed x" and sh: "shape x = [B, Cin, H, W]"
    and C: "1 \<le> Cin" "2 \<le> Cout" and s: "1 < s"
    and ok: "1 \<le> B" "1 \<le> H" "1 \<le> W"
    and bn: "training \<longrightarrow> B * window_out H 3 1 s * window_out W 3 1 s \<noteq> 1"
  shows "\<exists>y. forward num training (InvertedResidualBlock (int Cin) Cout s) x = Inr y
            \<and> well_formed y
            \<and> shape y = [B, nat (2 * (Cout div 2)), window_out H 3 1 s, window_out W 3 1 s]
            \<and> 2 * (Cout div 2) = (if even Cout then Cout else Cout - 1)"
proof -
  define n where "n = nat (Cout div 2)"
  have n: "1 \<le> n" and Cn: "Cout div 2 = int n" using C by (auto simp: n_def)
  have s1: "1 \<le> s" using s by simp
  have block: "InvertedResidualBlock (int Cin) Cout s
                 = Block (Some (DSConvBlock (int Cin) (int n) 3 1 s True))
                     (Sequential [ConvBlock (int Cin) (int n) 1 0 1 True,
                                  DSConvBlock (int n) (int n) 3 1 s True])"
    using s by (simp add: InvertedResidualBlock_def Cn Let_def)
  have e: "nat (2 * (Cout div 2)) = 2 * n" by (simp add: Cn)
  have p: "2 * (Cout div 2) = (if even Cout then Cout else Cout - 1)"
    by (auto elim: oddE)
  show ?thesis
    using downsampling_block [OF sh ok(1) C(1) n s1 ok(2,3) bn, of num] p
    unfolding block e by blast
qed

theorem odd_width_unit_witness:
  "well_formed \<lparr>shape = [1, 1, 2, 4], data = [0, 1, 2, 3, 4, 5, 6, 7 :: nat]\<rparr>
   \<and> (1::nat) \<le> 1 \<and> (2::int) \<le> 7 \<and> (1::int) < 2
   \<and> (1::nat) * window_out 2 3 1 2 * window_out 4 3 1 2 \<noteq> 1
   \<and> (\<exists>y. forward (\<lambda>l x k. 0) True (InvertedResidualBlock 1 7 2)
              \<lparr>shape = [1, 1, 2, 4], data = [0, 1, 2, 3, 4, 5, 6, 7 :: nat]\<rparr> = Inr y
          \<and> shape y = [1, 6, 1, 2])"
proof -
  have w: "well_formed \<lparr>shape = [1, 1, 2, 4], data = [0, 1, 2, 3, 4, 5, 6, 7 :: nat]\<rparr>"
    by (simp add: well_formed_def numel_def)
  have s: "shape \<lparr>shape = [1, 1, 2, 4], data = [0, 1, 2, 3, 4, 5, 6, 7 :: nat]\<rparr> = [1, 1, 2, 4]"
    by simp
  have h: "window_out 2 3 1 2 = 1" "window_out 4 3 1 2 = 2" by (simp_all add: window_out_def)
  obtain y where
    "forward (\<lambda>l x k. 0) True (InvertedResidualBlock (int 1) 7 2)
       \<lparr>shape = [1, 1, 2, 4], data = [0, 1, 2, 3, 4, 5, 6, 7 :: nat]\<rparr> = Inr y"
    "shape y = [1, nat (2 * (7 div 2)), window_out 2 3 1 2, window_out 4 3 1 2]"
    using odd_width_unit [OF w s, of 7 2 True "\<lambda>l x k. 0"] by (auto simp: h)
  then show ?thesis using w by (auto simp: h)
qed

end
